theory Spec2Isabelle
  imports Complex_Main
begin

section \<open>Strings, exceptions and values\<close>

text \<open>
  The chain server (\<^verbatim>\<open>RetrievalAugmentedGeneration/common/server.py\<close>) is a thin HTTP layer
  over an externally supplied example class. The model below follows the file top to
  bottom: the request types, the startup discovery \<^verbatim>\<open>import_example\<close> and the three
  endpoints. Everything the endpoints do to the outside (the file system, the example
  class, the logger) is threaded through an explicit state.

  Strings are \<^typ>\<open>string\<close>. \<^verbatim>\<open>str.lower\<close> is modelled on the ASCII letters; the three role
  names are ASCII, and no character outside ASCII lowercases to a letter of theirs, so
  the verdict of the role validator is the same.
\<close>

type_synonym bytes = string

definition char_lower :: "char \<Rightarrow> char" where
  "char_lower c =
     (case map_of (zip ''ABCDEFGHIJKLMNOPQRSTUVWXYZ'' ''abcdefghijklmnopqrstuvwxyz'') c of
        None \<Rightarrow> c
      | Some l \<Rightarrow> l)"

definition str_lower :: "string \<Rightarrow> string" where
  "str_lower s = map char_lower s"

definition endswith :: "string \<Rightarrow> string \<Rightarrow> bool" where
  "endswith s suf \<longleftrightarrow> length suf \<le> length s \<and> drop (length s - length suf) s = suf"

text \<open>
  \<^verbatim>\<open>posixpath.basename\<close>: everything after the last slash.
  \<^verbatim>\<open>posixpath.join\<close> for two components.
\<close>

definition os_path_basename :: "string \<Rightarrow> string" where
  "os_path_basename p = rev (takeWhile (\<lambda>c. c \<noteq> CHR ''/'') (rev p))"

definition os_path_join :: "string \<Rightarrow> string \<Rightarrow> string" where
  "os_path_join a b =
     (if b \<noteq> [] \<and> hd b = CHR ''/'' then b
      else if a = [] \<or> last a = CHR ''/'' then a @ b
      else a @ ''/'' @ b)"

text \<open>
  An instance of Python's \<^verbatim>\<open>Exception\<close>: the name of its class, the names of the proper
  base classes of that class below \<^verbatim>\<open>Exception\<close>, and \<^verbatim>\<open>str(e)\<close>. Every value of the type
  is caught by \<^verbatim>\<open>except Exception\<close>; the interpreter's exit signals
  (\<^verbatim>\<open>KeyboardInterrupt\<close>, \<^verbatim>\<open>SystemExit\<close>) are not values of it.
\<close>

datatype pyexn = PyExn (exn_class: string) (exn_bases: "string list") (exn_msg: string)

definition isinstance :: "pyexn \<Rightarrow> string list \<Rightarrow> bool" where
  "isinstance e classes \<longleftrightarrow> (\<exists>c \<in> set classes. c \<in> set (exn_class e # exn_bases e))"

definition RuntimeError :: "string \<Rightarrow> pyexn" where
  "RuntimeError msg = PyExn ''RuntimeError'' [] msg"

definition NotImplementedError :: "string \<Rightarrow> pyexn" where
  "NotImplementedError msg = PyExn ''NotImplementedError'' [''RuntimeError''] msg"

definition ValueError :: "string \<Rightarrow> pyexn" where
  "ValueError msg = PyExn ''ValueError'' [] msg"

definition AttributeError :: "string \<Rightarrow> pyexn" where
  "AttributeError msg = PyExn ''AttributeError'' [] msg"

definition NameError :: "string \<Rightarrow> pyexn" where
  "NameError name =
     PyExn ''NameError'' [] (''name '' @ [CHR 0x27] @ name @ [CHR 0x27] @ '' is not defined'')"

text \<open>
  pydantic's \<^verbatim>\<open>ValidationError\<close>, a subclass of \<^verbatim>\<open>ValueError\<close>, for one error: the model, the
  field, the message of the error and its type.
\<close>

definition ValidationError :: "string \<Rightarrow> string \<Rightarrow> string \<Rightarrow> string \<Rightarrow> pyexn" where
  "ValidationError model loc msg type =
     PyExn ''ValidationError'' [''ValueError'']
       (''1 validation error for '' @ model @ [CHR 0x0A] @ loc @ [CHR 0x0A] @
        ''  '' @ msg @ '' (type='' @ type @ '')'')"

section \<open>Request types\<close>

text \<open>
  \<^verbatim>\<open>class Message(BaseModel)\<close>. \<open>validate_role\<close> is the body of the method of that name.
  \<open>mk_Message\<close> is the construction of a message by a class on which pydantic's
  \<^verbatim>\<open>validator\<close> has registered the method for the field \<^verbatim>\<open>role\<close>: the validator runs on the
  role, and its \<^verbatim>\<open>ValueError\<close> is raised by pydantic as a \<^verbatim>\<open>ValidationError\<close>. The requests of
  the endpoints are built with it.

  The class statement of the file is another matter, modelled by \<open>class_Message\<close>: it
  evaluates the decorator expression \<^verbatim>\<open>validator('role')\<close> in the namespace of the module.
  \<open>module_names\<close> lists the names bound when the statement runs (the imports and
  assignments of lines 17 to 53); \<^verbatim>\<open>validator\<close> is not a builtin either. \<open>Message_call\<close> is
  \<^verbatim>\<open>Message(role=..., content=...)\<close> in the module as it is written.
\<close>

record Message =
  role :: string
  content :: string

definition valid_roles :: "string set" where
  "valid_roles = {''user'', ''assistant'', ''system''}"

definition validate_role :: "string \<Rightarrow> pyexn + string" where
  "validate_role v =
     (if str_lower v \<notin> valid_roles
      then Inl (ValueError (''Role must be one of 'user', 'assistant', or 'system'' @ [CHR 0x27]))
      else Inr (str_lower v))"

definition mk_Message :: "string \<Rightarrow> string \<Rightarrow> pyexn + Message" where
  "mk_Message r c =
     (case validate_role r of
        Inl e \<Rightarrow> Inl (ValidationError ''Message'' ''role'' (exn_msg e) ''value_error'')
      | Inr r' \<Rightarrow> Inr \<lparr>role = r', content = c\<rparr>)"

definition module_names :: "string list" where
  "module_names =
     [''base64'', ''os'', ''shutil'', ''logging'', ''Path'', ''Any'', ''Dict'', ''List'',
      ''importlib'', ''getmembers'', ''isclass'', ''FastAPI'', ''File'', ''UploadFile'',
      ''Request'', ''JSONResponse'', ''StreamingResponse'', ''CORSMiddleware'',
      ''BaseModel'', ''Field'', ''MilvusException'', ''MilvusUnavailableException'',
      ''utils'', ''tracing'', ''logger'', ''app'', ''origins'', ''EXAMPLE_DIR'']"

definition class_Message :: "pyexn + (string \<Rightarrow> string \<Rightarrow> pyexn + Message)" where
  "class_Message =
     (if ''validator'' \<in> set module_names then Inr mk_Message
      else Inl (NameError ''validator''))"

definition Message_call :: "string \<Rightarrow> string \<Rightarrow> pyexn + Message" where
  "Message_call r c =
     (case class_Message of
        Inl e \<Rightarrow> Inl e
      | Inr init \<Rightarrow> init r c)"

text \<open>
  \<^verbatim>\<open>class Prompt(BaseModel)\<close>. The float fields are reals: the server only passes them on.
  \<^verbatim>\<open>prompt_json\<close> is the request body, where every field may be missing; \<^verbatim>\<open>mk_Prompt\<close> fills
  in the defaults the \<^verbatim>\<open>Field\<close> declarations give, and rejects a body without one of the two
  required fields or with an invalid message.
\<close>

record Prompt =
  messages :: "Message list"
  use_knowledge_base :: bool
  temperature :: real
  top_p :: real
  max_tokens :: int
  seed :: int
  bad :: "string list option"
  stop :: "string list option"
  stream :: bool

record prompt_json =
  json_messages :: "(string \<times> string) list option"
  json_use_knowledge_base :: "bool option"
  json_temperature :: "real option"
  json_top_p :: "real option"
  json_max_tokens :: "int option"
  json_seed :: "int option"
  json_bad :: "string list option"
  json_stop :: "string list option"
  json_stream :: "bool option"

fun mk_Messages :: "(string \<times> string) list \<Rightarrow> pyexn + Message list" where
  "mk_Messages [] = Inr []"
| "mk_Messages ((r, c) # rest) =
     (case mk_Message r c of
        Inl e \<Rightarrow> Inl e
      | Inr m \<Rightarrow> (case mk_Messages rest of Inl e \<Rightarrow> Inl e | Inr ms \<Rightarrow> Inr (m # ms)))"

definition field_default :: "'a \<Rightarrow> 'a option \<Rightarrow> 'a" where
  "field_default d v = (case v of None \<Rightarrow> d | Some x \<Rightarrow> x)"

definition mk_Prompt :: "prompt_json \<Rightarrow> pyexn + Prompt" where
  "mk_Prompt j =
     (case json_messages j of
        None \<Rightarrow>
          Inl (ValidationError ''Prompt'' ''messages'' ''field required'' ''value_error.missing'')
      | Some raw \<Rightarrow>
          (case mk_Messages raw of
             Inl e \<Rightarrow> Inl e
           | Inr ms \<Rightarrow>
               (case json_use_knowledge_base j of
                  None \<Rightarrow>
                    Inl (ValidationError ''Prompt'' ''use_knowledge_base'' ''field required''
                      ''value_error.missing'')
                | Some kb \<Rightarrow>
                    Inr \<lparr>messages = ms,
                         use_knowledge_base = kb,
                         temperature = field_default (2 / 10) (json_temperature j),
                         top_p = field_default (7 / 10) (json_top_p j),
                         max_tokens = field_default 1024 (json_max_tokens j),
                         seed = field_default 42 (json_seed j),
                         bad = json_bad j,
                         stop = json_stop j,
                         stream = field_default False (json_stream j)\<rparr>)))"

text \<open>\<^verbatim>\<open>class DocumentSearch(BaseModel)\<close>; its text field is named \<^verbatim>\<open>content\<close> in the source.\<close>

record DocumentSearch =
  search_content :: string
  num_docs :: int

text \<open>The uploaded file: \<^verbatim>\<open>file.filename\<close> (which may be \<^verbatim>\<open>None\<close>) and the bytes read from \<^verbatim>\<open>file.file\<close>.\<close>

record UploadFile =
  filename :: "string option"
  file_bytes :: bytes

text \<open>Python values as they occur in \<^verbatim>\<open>vars(prompt)\<close>.\<close>

datatype pyval =
    PyNone
  | PyBool bool
  | PyInt int
  | PyFloat real
  | PyStrList "string list"
  | PyMessages "Message list"

definition py_optional_strs :: "string list option \<Rightarrow> pyval" where
  "py_optional_strs v = (case v of None \<Rightarrow> PyNone | Some ws \<Rightarrow> PyStrList ws)"

definition vars_Prompt :: "Prompt \<Rightarrow> (string \<times> pyval) list" where
  "vars_Prompt p =
     [(''messages'', PyMessages (messages p)),
      (''use_knowledge_base'', PyBool (use_knowledge_base p)),
      (''temperature'', PyFloat (temperature p)),
      (''top_p'', PyFloat (top_p p)),
      (''max_tokens'', PyInt (max_tokens p)),
      (''seed'', PyInt (seed p)),
      (''bad'', py_optional_strs (bad p)),
      (''stop'', py_optional_strs (stop p)),
      (''stream'', PyBool (stream p))]"

section \<open>Responses\<close>

text \<open>
  \<^verbatim>\<open>JSONResponse(content=..., status_code=...)\<close> and
  \<^verbatim>\<open>StreamingResponse(generator, media_type=...)\<close>, whose status code is the default 200.
  The body of a stream is either the generator a chain returned (opaque, of type \<open>'g\<close>) or
  an iterator over a list of chunks the server built itself.
\<close>

record JSONResponse =
  json_content :: "(string \<times> string) list"
  json_status_code :: nat

datatype 'g body_iterator = Generator 'g | Iter "string list"

record 'g StreamingResponse =
  body_iterator :: "'g body_iterator"
  media_type :: string
  status_code :: nat

definition StreamingResponse :: "'g body_iterator \<Rightarrow> string \<Rightarrow> 'g StreamingResponse" where
  "StreamingResponse b mt = \<lparr>body_iterator = b, media_type = mt, status_code = 200\<rparr>"

section \<open>The example class, the operating system and the state of the process\<close>

text \<open>
  The example class is external. What the server sees of it: its name, \<^verbatim>\<open>dir(cls)\<close>, what
  calling the class does, and what its methods do. Each of them acts on an outside world
  \<open>'w\<close> (vector store, model endpoints, disk) and may raise. \<^verbatim>\<open>document_search\<close> is optional:
  \<open>None\<close> stands for an instance without a callable attribute of that name.
\<close>

type_synonym settings = "(string \<times> pyval) list"

record ('w, 'g, 'd) example_class =
  cls_name :: string
  cls_dir :: "string list"
  cls_init :: "'w \<Rightarrow> pyexn option \<times> 'w"
  ingest_docs :: "string \<Rightarrow> string \<Rightarrow> 'w \<Rightarrow> pyexn option \<times> 'w"
  rag_chain :: "string option \<Rightarrow> Message list \<Rightarrow> settings \<Rightarrow> 'w \<Rightarrow> (pyexn + 'g) \<times> 'w"
  llm_chain :: "string option \<Rightarrow> Message list \<Rightarrow> settings \<Rightarrow> 'w \<Rightarrow> (pyexn + 'g) \<times> 'w"
  document_search_method :: "(string \<Rightarrow> int \<Rightarrow> 'w \<Rightarrow> (pyexn + 'd list) \<times> 'w) option"

text \<open>
  The operating-system calls of the file: \<^verbatim>\<open>os.walk\<close> (root and file names of each
  directory), loading a module and listing its classes by name
  (\<^verbatim>\<open>exec_module\<close> then \<^verbatim>\<open>getmembers(module, isclass)\<close>), \<^verbatim>\<open>Path.mkdir\<close> and writing a file.
\<close>

record ('w, 'g, 'd) os_env =
  walk :: "string \<Rightarrow> (string \<times> string list) list"
  exec_module :: "string \<Rightarrow> 'w \<Rightarrow> (pyexn + (string \<times> ('w, 'g, 'd) example_class) list) \<times> 'w"
  mkdir :: "string \<Rightarrow> 'w \<Rightarrow> pyexn option \<times> 'w"
  write_file :: "string \<Rightarrow> bytes \<Rightarrow> 'w \<Rightarrow> pyexn option \<times> 'w"

text \<open>
  What the server does to the outside, in order. Objects are identified by the number
  they get when they are created.
\<close>

datatype event =
    Instantiate string nat
  | CallIngestDocs nat string string
  | CallRagChain nat "string option" "Message list" settings
  | CallLlmChain nat "string option" "Message list" settings
  | CallDocumentSearch nat string int
  | Mkdir string
  | WriteFile string bytes
  | LogError string
  | LogInfo string

text \<open>
  The state of the process: the attribute \<^verbatim>\<open>app.example\<close> (unset before startup), the
  number of the next object, the events so far and the outside world.
\<close>

record ('w, 'g, 'd) server =
  app_example :: "('w, 'g, 'd) example_class option"
  next_obj :: nat
  trace :: "event list"
  world :: 'w

definition emit :: "event \<Rightarrow> ('w, 'g, 'd) server \<Rightarrow> ('w, 'g, 'd) server" where
  "emit ev s = s\<lparr>trace := trace s @ [ev]\<rparr>"

definition run :: "('w \<Rightarrow> 'r \<times> 'w) \<Rightarrow> ('w, 'g, 'd) server \<Rightarrow> 'r \<times> ('w, 'g, 'd) server" where
  "run f s = (case f (world s) of (r, w) \<Rightarrow> (r, s\<lparr>world := w\<rparr>))"

text \<open>Calling a class: a new object on success, numbered and recorded.\<close>

definition instantiate ::
  "('w, 'g, 'd) example_class \<Rightarrow> ('w, 'g, 'd) server \<Rightarrow> (pyexn + nat) \<times> ('w, 'g, 'd) server" where
  "instantiate c s =
     (case run (cls_init c) s of
        (Some e, s1) \<Rightarrow> (Inl e, s1)
      | (None, s1) \<Rightarrow>
          (Inr (next_obj s1),
           s1\<lparr>next_obj := Suc (next_obj s1),
              trace := trace s1 @ [Instantiate (cls_name c) (next_obj s1)]\<rparr>))"

text \<open>\<^verbatim>\<open>app.example()\<close>: read the attribute, then call the class it holds.\<close>

definition app_example_call ::
  "('w, 'g, 'd) server \<Rightarrow>
     (pyexn + ('w, 'g, 'd) example_class \<times> nat) \<times> ('w, 'g, 'd) server" where
  "app_example_call s =
     (case app_example s of
        None \<Rightarrow> (Inl (AttributeError ([CHR 0x27] @ ''FastAPI' object has no attribute 'example'' @ [CHR 0x27])), s)
      | Some c \<Rightarrow>
          (case instantiate c s of
             (Inl e, s1) \<Rightarrow> (Inl e, s1)
           | (Inr obj, s1) \<Rightarrow> (Inr (c, obj), s1)))"

section \<open>Startup discovery\<close>

text \<open>
  \<^verbatim>\<open>import_example\<close>: three nested loops, over the directories of the walk, the files of a
  directory and the classes of a module. A loop either binds the class and returns
  (\<open>Bound\<close>), raises (\<open>Raised\<close>), or runs to its end (\<open>NotFound\<close>). The bare \<^verbatim>\<open>except\<close>
  around the body of the innermost loop turns a failed instantiation into a
  \<^verbatim>\<open>ValueError\<close> naming the class. The object the probe creates is dropped; the attribute
  receives the class.
\<close>

definition EXAMPLE_DIR :: string where
  "EXAMPLE_DIR = ''RetrievalAugmentedGeneration/example''"

datatype 's scan = Bound 's | Raised pyexn | NotFound 's

fun scan_classes ::
  "(string \<times> ('w, 'g, 'd) example_class) list \<Rightarrow> ('w, 'g, 'd) server \<Rightarrow>
     ('w, 'g, 'd) server scan" where
  "scan_classes [] s = NotFound s"
| "scan_classes ((name, cls) # rest) s =
     (if set [''ingest_docs'', ''llm_chain'', ''rag_chain''] \<subseteq> set (cls_dir cls) then
        (if name = ''BaseExample'' then scan_classes rest s
         else
           (case instantiate cls s of
              (Inl e, s1) \<Rightarrow>
                Raised (ValueError (''Class '' @ name @
                  '' is not implemented and could not be instantiated.''))
            | (Inr obj, s1) \<Rightarrow> Bound (s1\<lparr>app_example := Some cls\<rparr>)))
      else scan_classes rest s)"

fun scan_files ::
  "('w, 'g, 'd) os_env \<Rightarrow> string \<Rightarrow> string list \<Rightarrow> ('w, 'g, 'd) server \<Rightarrow>
     ('w, 'g, 'd) server scan" where
  "scan_files os dirpath [] s = NotFound s"
| "scan_files os dirpath (f # files) s =
     (if \<not> endswith f ''.py'' then scan_files os dirpath files s
      else
        (case run (exec_module os (os_path_join dirpath f)) s of
           (Inl e, s1) \<Rightarrow> Raised e
         | (Inr members, s1) \<Rightarrow>
             (case scan_classes members s1 of
                NotFound s2 \<Rightarrow> scan_files os dirpath files s2
              | r \<Rightarrow> r)))"

fun scan_walk ::
  "('w, 'g, 'd) os_env \<Rightarrow> (string \<times> string list) list \<Rightarrow> ('w, 'g, 'd) server \<Rightarrow>
     ('w, 'g, 'd) server scan" where
  "scan_walk os [] s = NotFound s"
| "scan_walk os ((dirpath, files) # dirs) s =
     (case scan_files os dirpath files s of
        NotFound s1 \<Rightarrow> scan_walk os dirs s1
      | r \<Rightarrow> r)"

definition import_example ::
  "('w, 'g, 'd) os_env \<Rightarrow> ('w, 'g, 'd) server \<Rightarrow> pyexn + ('w, 'g, 'd) server" where
  "import_example os s =
     (case scan_walk os (walk os EXAMPLE_DIR) s of
        Bound s1 \<Rightarrow> Inr s1
      | Raised e \<Rightarrow> Inl e
      | NotFound s1 \<Rightarrow>
          Inl (NotImplementedError (''Could not find a valid example class in '' @ EXAMPLE_DIR)))"

section \<open>The upload endpoint\<close>

text \<open>
  \<^verbatim>\<open>upload_document\<close>. \<open>upload_try\<close> is the body of the \<^verbatim>\<open>try\<close>: \<open>None\<close> when it reaches the
  \<^verbatim>\<open>return\<close>, the exception otherwise. Opening the file for writing and copying the upload
  into it is one write.
\<close>

definition filename_error :: string where
  "filename_error = ''Error parsing uploaded filename.''"

definition upload_error :: "string \<Rightarrow> string \<Rightarrow> string" where
  "upload_error fname msg =
     ''Error from /uploadDocument endpoint. Ingestion of file: '' @ fname @
     '' failed with error: '' @ msg"

definition no_files :: JSONResponse where
  "no_files = \<lparr>json_content = [(''message'', ''No files provided'')], json_status_code = 200\<rparr>"

definition upload_try ::
  "('w, 'g, 'd) os_env \<Rightarrow> string \<Rightarrow> bytes \<Rightarrow> ('w, 'g, 'd) server \<Rightarrow>
     pyexn option \<times> ('w, 'g, 'd) server" where
  "upload_try os fname data s =
     (let upload_folder = ''uploaded_files'';
          upload_file = os_path_basename fname
      in if upload_file = [] then (Some (RuntimeError filename_error), s)
         else
           (let file_path = os_path_join upload_folder upload_file
            in case run (mkdir os upload_folder) (emit (Mkdir upload_folder) s) of
                 (Some e, s1) \<Rightarrow> (Some e, s1)
               | (None, s1) \<Rightarrow>
                   (case run (write_file os file_path data) (emit (WriteFile file_path data) s1) of
                      (Some e, s2) \<Rightarrow> (Some e, s2)
                    | (None, s2) \<Rightarrow>
                        (case app_example_call s2 of
                           (Inl e, s3) \<Rightarrow> (Some e, s3)
                         | (Inr (c, obj), s3) \<Rightarrow>
                             run (ingest_docs c file_path upload_file)
                               (emit (CallIngestDocs obj file_path upload_file) s3)))))"

definition upload_document ::
  "('w, 'g, 'd) os_env \<Rightarrow> UploadFile \<Rightarrow> ('w, 'g, 'd) server \<Rightarrow>
     JSONResponse \<times> ('w, 'g, 'd) server" where
  "upload_document os f s =
     (case filename f of
        None \<Rightarrow> (no_files, s)
      | Some fname \<Rightarrow>
          (if fname = []
           then (no_files, s)
           else
             (case upload_try os fname (file_bytes f) s of
                (None, s1) \<Rightarrow>
                  (\<lparr>json_content = [(''message'', ''File uploaded successfully'')],
                    json_status_code = 200\<rparr>, s1)
              | (Some e, s1) \<Rightarrow>
                  (\<lparr>json_content = [(''message'', exn_msg e)], json_status_code = 500\<rparr>,
                   emit (LogError (upload_error fname (exn_msg e))) s1))))"

section \<open>The generate endpoint\<close>

text \<open>
  The query is the content of the first user message of the reversed history. The loop
  that removes it runs over the indices from the last to the first and deletes at the
  first user message it meets. \<^verbatim>\<open>chat_history\<close> is the very list \<^verbatim>\<open>prompt.messages\<close>, so the
  deletion is seen by \<^verbatim>\<open>vars(prompt)\<close> too.
\<close>

definition last_user_message :: "Message list \<Rightarrow> string option" where
  "last_user_message chat_history =
     (case filter (\<lambda>m. role m = ''user'') (rev chat_history) of
        [] \<Rightarrow> None
      | m # _ \<Rightarrow> Some (content m))"

fun remove_from :: "nat \<Rightarrow> Message list \<Rightarrow> Message list" where
  "remove_from 0 chat_history = chat_history"
| "remove_from (Suc i) chat_history =
     (if role (chat_history ! i) = ''user''
      then take i chat_history @ drop (Suc i) chat_history
      else remove_from i chat_history)"

definition remove_last_user :: "Message list \<Rightarrow> Message list" where
  "remove_last_user chat_history = remove_from (length chat_history) chat_history"

definition llm_settings :: "Prompt \<Rightarrow> settings" where
  "llm_settings p =
     filter (\<lambda>(key, v). key \<notin> set [''messages'', ''use_knowledge_base'']) (vars_Prompt p)"

definition rag_info :: string where
  "rag_info = ''Knowledge base is enabled. Using rag chain for response generation.''"

definition milvus_error :: string where
  "milvus_error = ''Error from Milvus database in /generate endpoint. Please ensure you have ingested some documents. Error details: ''"

definition generate_error :: string where
  "generate_error = ''Error from /generate endpoint. Error details: ''"

definition milvus_chunk :: string where
  "milvus_chunk = ''Error from milvus server. Please ensure you have ingested some documents. Please check chain-server logs for more details.''"

definition server_chunk :: string where
  "server_chunk = ''Error from chain server. Please check chain-server logs for more details.''"

text \<open>The two \<^verbatim>\<open>except\<close> clauses of \<^verbatim>\<open>generate_answer\<close>, in the order of the source.\<close>

definition generate_except ::
  "pyexn \<Rightarrow> ('w, 'g, 'd) server \<Rightarrow> 'g StreamingResponse \<times> ('w, 'g, 'd) server" where
  "generate_except e s =
     (if isinstance e [''MilvusException'', ''MilvusUnavailableException''] then
        (StreamingResponse (Iter [milvus_chunk]) ''text/event-stream'',
         emit (LogError (milvus_error @ exn_msg e)) s)
      else
        (StreamingResponse (Iter [server_chunk]) ''text/event-stream'',
         emit (LogError (generate_error @ exn_msg e)) s))"

text \<open>The body of the \<^verbatim>\<open>try\<close> of \<^verbatim>\<open>generate_answer\<close>: the response it returns, or the exception.\<close>

definition generate_try ::
  "Prompt \<Rightarrow> string option \<Rightarrow> Message list \<Rightarrow> settings \<Rightarrow> ('w, 'g, 'd) server \<Rightarrow>
     (pyexn + 'g StreamingResponse) \<times> ('w, 'g, 'd) server" where
  "generate_try prompt query chat_history kwargs s =
     (case app_example_call s of
        (Inl e, s1) \<Rightarrow> (Inl e, s1)
      | (Inr (example, obj), s1) \<Rightarrow>
          (if use_knowledge_base prompt then
             (case run (rag_chain example query chat_history kwargs)
                     (emit (CallRagChain obj query chat_history kwargs)
                       (emit (LogInfo rag_info) s1)) of
                (Inl e, s2) \<Rightarrow> (Inl e, s2)
              | (Inr generator, s2) \<Rightarrow>
                  (Inr (StreamingResponse (Generator generator) ''text/event-stream''), s2))
           else
             (case run (llm_chain example query chat_history kwargs)
                     (emit (CallLlmChain obj query chat_history kwargs) s1) of
                (Inl e, s2) \<Rightarrow> (Inl e, s2)
              | (Inr generator, s2) \<Rightarrow>
                  (Inr (StreamingResponse (Generator generator) ''text/event-stream''), s2))))"

definition generate_answer ::
  "Prompt \<Rightarrow> ('w, 'g, 'd) server \<Rightarrow> 'g StreamingResponse \<times> ('w, 'g, 'd) server" where
  "generate_answer prompt s =
     (let last_user = last_user_message (messages prompt);
          chat_history = remove_last_user (messages prompt);
          prompt1 = prompt\<lparr>messages := chat_history\<rparr>;
          kwargs = llm_settings prompt1
      in case generate_try prompt1 last_user chat_history kwargs s of
           (Inr response, s1) \<Rightarrow> (response, s1)
         | (Inl e, s1) \<Rightarrow> generate_except e s1)"

section \<open>The search endpoint\<close>

definition search_missing :: string where
  "search_missing = ''Example class has not implemented the document_search method.''"

definition search_error :: string where
  "search_error = ''Error from /documentSearch endpoint. Error details: ''"

definition document_search_try ::
  "DocumentSearch \<Rightarrow> ('w, 'g, 'd) server \<Rightarrow> (pyexn + 'd list) \<times> ('w, 'g, 'd) server" where
  "document_search_try data s =
     (case app_example_call s of
        (Inl e, s1) \<Rightarrow> (Inl e, s1)
      | (Inr (example, obj), s1) \<Rightarrow>
          (case document_search_method example of
             Some search \<Rightarrow>
               run (search (search_content data) (num_docs data))
                 (emit (CallDocumentSearch obj (search_content data) (num_docs data)) s1)
           | None \<Rightarrow>
               (Inl (NotImplementedError search_missing), s1)))"

definition document_search ::
  "DocumentSearch \<Rightarrow> ('w, 'g, 'd) server \<Rightarrow> 'd list \<times> ('w, 'g, 'd) server" where
  "document_search data s =
     (case document_search_try data s of
        (Inr docs, s1) \<Rightarrow> (docs, s1)
      | (Inl e, s1) \<Rightarrow>
          ([], emit (LogError (search_error @ exn_msg e)) s1))"

section \<open>Requests, and what a trace shows\<close>

text \<open>
  A request is served by one of the three endpoints; \<open>serve_all\<close> serves a sequence of
  requests one after the other.
\<close>

datatype request =
    UploadDocument UploadFile
  | GenerateAnswer Prompt
  | SearchDocuments DocumentSearch

fun serve ::
  "('w, 'g, 'd) os_env \<Rightarrow> request \<Rightarrow> ('w, 'g, 'd) server \<Rightarrow> ('w, 'g, 'd) server" where
  "serve os (UploadDocument f) s = snd (upload_document os f s)"
| "serve os (GenerateAnswer prompt) s = snd (generate_answer prompt s)"
| "serve os (SearchDocuments data) s = snd (document_search data s)"

definition serve_all ::
  "('w, 'g, 'd) os_env \<Rightarrow> request list \<Rightarrow> ('w, 'g, 'd) server \<Rightarrow> ('w, 'g, 'd) server" where
  "serve_all os reqs s = fold (serve os) reqs s"

text \<open>The events between two states of the process.\<close>

definition new_events :: "('w, 'g, 'd) server \<Rightarrow> ('w, 'g, 'd) server \<Rightarrow> event list" where
  "new_events s s' = drop (length (trace s)) (trace s')"

text \<open>
  The calls of a chain in a trace: which chain, on which object, with which query,
  history and settings.
\<close>

fun chain_call ::
  "event \<Rightarrow> (string \<times> nat \<times> string option \<times> Message list \<times> settings) option" where
  "chain_call (CallRagChain obj q h kw) = Some (''rag_chain'', obj, q, h, kw)"
| "chain_call (CallLlmChain obj q h kw) = Some (''llm_chain'', obj, q, h, kw)"
| "chain_call ev = None"

definition chain_calls ::
  "event list \<Rightarrow> (string \<times> nat \<times> string option \<times> Message list \<times> settings) list" where
  "chain_calls evs = List.map_filter chain_call evs"

text \<open>The objects created in a trace, and the objects a method was called on.\<close>

fun created :: "event \<Rightarrow> nat option" where
  "created (Instantiate name obj) = Some obj"
| "created ev = None"

fun receiver :: "event \<Rightarrow> nat option" where
  "receiver (CallIngestDocs obj p n) = Some obj"
| "receiver (CallRagChain obj q h kw) = Some obj"
| "receiver (CallLlmChain obj q h kw) = Some obj"
| "receiver (CallDocumentSearch obj c n) = Some obj"
| "receiver ev = None"

definition instances :: "event list \<Rightarrow> nat list" where
  "instances evs = List.map_filter created evs"

definition receivers :: "event list \<Rightarrow> nat list" where
  "receivers evs = List.map_filter receiver evs"

fun is_disk_or_ingest :: "event \<Rightarrow> bool" where
  "is_disk_or_ingest (Mkdir d) = True"
| "is_disk_or_ingest (WriteFile p b) = True"
| "is_disk_or_ingest (CallIngestDocs obj p n) = True"
| "is_disk_or_ingest ev = False"

text \<open>
  What one request may do to the objects: either it creates none and calls no method, or
  it creates one, numbered by the counter, and calls at most one method, on that object.
  \<open>served\<close> is the same for a sequence of requests, and \<open>probed\<close> is what a successful
  startup leaves behind: the class bound, and one object created for the probe.
\<close>

definition request_step :: "('w, 'g, 'd) server \<Rightarrow> ('w, 'g, 'd) server \<Rightarrow> bool" where
  "request_step s s' \<longleftrightarrow>
     app_example s' = app_example s \<and>
     (\<exists>evs. trace s' = trace s @ evs \<and>
        (instances evs = [] \<and> receivers evs = [] \<and> next_obj s' = next_obj s \<or>
         instances evs = [next_obj s] \<and> set (receivers evs) \<subseteq> {next_obj s} \<and>
         length (receivers evs) \<le> 1 \<and> next_obj s' = Suc (next_obj s)))"

definition served :: "('w, 'g, 'd) server \<Rightarrow> ('w, 'g, 'd) server \<Rightarrow> bool" where
  "served s s' \<longleftrightarrow>
     app_example s' = app_example s \<and> next_obj s \<le> next_obj s' \<and>
     (\<exists>evs. trace s' = trace s @ evs \<and>
        instances evs = [next_obj s ..< next_obj s'] \<and>
        distinct (receivers evs) \<and>
        set (receivers evs) \<subseteq> {next_obj s ..< next_obj s'})"

definition probed :: "('w, 'g, 'd) server \<Rightarrow> ('w, 'g, 'd) server \<Rightarrow> bool" where
  "probed s s' \<longleftrightarrow>
     (\<exists>c. app_example s' = Some c \<and>
        set [''ingest_docs'', ''llm_chain'', ''rag_chain''] \<subseteq> set (cls_dir c) \<and>
        trace s' = trace s @ [Instantiate (cls_name c) (next_obj s)] \<and>
        next_obj s' = Suc (next_obj s))"

section \<open>A stub example class\<close>

text \<open>
  A stub in the place of the example class, for running the endpoints on concrete
  requests: its constructor and its methods return what the stub is built with. The
  stub operating system finds one module with the base class and the stub in it.
\<close>

definition stub_example ::
  "pyexn option \<Rightarrow> pyexn option \<Rightarrow> (pyexn + string list) \<Rightarrow> (pyexn + string list) \<Rightarrow>
     (unit, string list, string) example_class" where
  "stub_example init_result ingest_result chain_result search_result =
     \<lparr>cls_name = ''StubExample'',
      cls_dir = [''document_search'', ''ingest_docs'', ''llm_chain'', ''rag_chain''],
      cls_init = (\<lambda>w. (init_result, w)),
      ingest_docs = (\<lambda>p n w. (ingest_result, w)),
      rag_chain = (\<lambda>q h kw w. (chain_result, w)),
      llm_chain = (\<lambda>q h kw w. (chain_result, w)),
      document_search_method = Some (\<lambda>c n w. (search_result, w))\<rparr>"

definition stub_ok :: "(unit, string list, string) example_class" where
  "stub_ok = stub_example None None (Inr [''chunk'']) (Inr [''doc''])"

definition stub_os :: "(unit, string list, string) os_env" where
  "stub_os =
     \<lparr>walk = (\<lambda>d. [(d, [''README.md'', ''stub.py''])]),
      exec_module = (\<lambda>path w.
        (Inr [(''BaseExample'', stub_ok\<lparr>cls_name := ''BaseExample''\<rparr>), (''StubExample'', stub_ok)], w)),
      mkdir = (\<lambda>d w. (None, w)),
      write_file = (\<lambda>p b w. (None, w))\<rparr>"

definition stub_server ::
  "(unit, string list, string) example_class option \<Rightarrow> (unit, string list, string) server" where
  "stub_server cls = \<lparr>app_example = cls, next_obj = 0, trace = [], world = ()\<rparr>"

definition stub_prompt :: "(string \<times> string) list \<Rightarrow> bool \<Rightarrow> Prompt" where
  "stub_prompt ms kb =
     \<lparr>messages = map (\<lambda>(r, c). \<lparr>role = r, content = c\<rparr>) ms,
      use_knowledge_base = kb, temperature = 2 / 10, top_p = 7 / 10, max_tokens = 1024,
      seed = 42, bad = None, stop = None, stream = False\<rparr>"

section \<open>Role validation\<close>

text \<open>
  The body of the validator lowercases the role and accepts the three role names; a class
  with the validator registered builds the message with the lowercased role, or raises
  pydantic's error.
\<close>

lemma validate_role_cases:
  "(str_lower r \<in> {''user'', ''assistant'', ''system''} \<longrightarrow>
      validate_role r = Inr (str_lower r) \<and>
      mk_Message r c = Inr \<lparr>role = str_lower r, content = c\<rparr>) \<and>
   (str_lower r \<notin> {''user'', ''assistant'', ''system''} \<longrightarrow>
      validate_role r =
        Inl (ValueError (''Role must be one of 'user', 'assistant', or 'system'' @ [CHR 0x27])) \<and>
      (\<exists>e. mk_Message r c = Inl e \<and> exn_class e = ''ValidationError''))"
  by (simp add: mk_Message_def validate_role_def valid_roles_def ValidationError_def)

text \<open>
  C10. In the file as it is written the class statement of \<^verbatim>\<open>Message\<close> raises: the decorator
  is the name \<^verbatim>\<open>validator\<close>, and the module binds \<^verbatim>\<open>BaseModel\<close> and \<^verbatim>\<open>Field\<close> of pydantic only.
  So no message is constructed, whatever the role: \<^verbatim>\<open>USER\<close> is not stored as \<^verbatim>\<open>user\<close>, and
  \<^verbatim>\<open>bot\<close> is not rejected by the validator, which never runs.
\<close>

theorem message_class_unbound_validator:
  "class_Message = Inl (NameError ''validator'') \<and>
   Message_call ''USER'' ''hello'' = Inl (NameError ''validator'') \<and>
   Message_call ''bot'' ''hello'' = Inl (NameError ''validator'') \<and>
   mk_Message ''USER'' ''hello'' = Inr \<lparr>role = ''user'', content = ''hello''\<rparr>"
proof -
  have unbound: "''validator'' \<notin> set module_names"
    by (simp add: module_names_def)
  have cls: "class_Message = Inl (NameError ''validator'')"
    using unbound by (simp add: class_Message_def)
  have bound: "mk_Message ''USER'' ''hello'' = Inr \<lparr>role = ''user'', content = ''hello''\<rparr>"
    by (simp add: mk_Message_def validate_role_def valid_roles_def str_lower_def char_lower_def)
  show ?thesis by (simp add: cls Message_call_def bound)
qed

section \<open>The query and the history of a conversation\<close>

lemma remove_from_no_user:
  "\<forall>j<i. role (ms ! j) \<noteq> ''user'' \<Longrightarrow> remove_from i ms = ms"
  by (induction i) simp_all

lemma remove_from_last_user:
  assumes "role m = ''user''" and "\<forall>x\<in>set post. role x \<noteq> ''user''" and "k \<le> length post"
  shows "remove_from (Suc (length pre + k)) (pre @ m # post) = pre @ post"
  using assms(3)
proof (induction k)
  case 0
  then show ?case using assms(1) by simp
next
  case (Suc k)
  then have "k < length post" by simp
  then have "role (post ! k) \<noteq> ''user''" using assms(2) by simp
  moreover have "(pre @ m # post) ! (length pre + Suc k) = post ! k"
    by (simp add: nth_append)
  ultimately show ?case using Suc by simp
qed

lemma remove_last_user_none:
  "\<forall>m\<in>set ms. role m \<noteq> ''user'' \<Longrightarrow> remove_last_user ms = ms"
  unfolding remove_last_user_def by (rule remove_from_no_user) simp

lemma remove_last_user_split:
  assumes "role m = ''user''" and "\<forall>x\<in>set post. role x \<noteq> ''user''"
  shows "remove_last_user (pre @ m # post) = pre @ post"
  using remove_from_last_user [OF assms, of "length post" pre]
  by (simp add: remove_last_user_def)

lemma last_user_message_none:
  "\<forall>m\<in>set ms. role m \<noteq> ''user'' \<Longrightarrow> last_user_message ms = None"
  by (simp add: last_user_message_def filter_empty_conv [THEN iffD2])

lemma last_user_message_split:
  assumes "role m = ''user''" and "\<forall>x\<in>set post. role x \<noteq> ''user''"
  shows "last_user_message (pre @ m # post) = Some (content m)"
proof -
  have "filter (\<lambda>m. role m = ''user'') (rev post) = []"
    using assms(2) by (simp add: filter_empty_conv)
  then show ?thesis using assms(1) by (simp add: last_user_message_def)
qed

lemma user_split:
  assumes "\<exists>m\<in>set ms. role m = ''user''"
  obtains pre m post where "ms = pre @ m # post" and "role m = ''user''"
    and "\<forall>x\<in>set post. role x \<noteq> ''user''"
  using split_list_last_prop [OF assms] by blast

lemma last_user_is_last:
  assumes "ms \<noteq> []" and "role (last ms) = ''user''"
  shows "last_user_message ms = Some (content (last ms))" and "remove_last_user ms = butlast ms"
proof -
  have ms: "ms = butlast ms @ last ms # []" using assms(1) by simp
  show "last_user_message ms = Some (content (last ms))"
    using last_user_message_split [of "last ms" "[]" "butlast ms"] assms(2) ms by simp
  show "remove_last_user ms = butlast ms"
    using remove_last_user_split [of "last ms" "[]" "butlast ms"] assms(2) ms by simp
qed

lemma set_remove_last_user: "set (remove_last_user ms) \<subseteq> set ms"
proof (cases "\<exists>m\<in>set ms. role m = ''user''")
  case True
  then obtain pre m post where "ms = pre @ m # post" "role m = ''user''"
    "\<forall>x\<in>set post. role x \<noteq> ''user''" by (rule user_split)
  then show ?thesis by (auto simp: remove_last_user_split)
next
  case False
  then show ?thesis by (simp add: remove_last_user_none)
qed

lemma history_ends_with_user_iff:
  "(remove_last_user ms \<noteq> [] \<and> role (last (remove_last_user ms)) = ''user'') \<longleftrightarrow>
   (2 \<le> length ms \<and> role (last ms) = ''user'' \<and> role (last (butlast ms)) = ''user'')"
proof (cases "\<exists>m\<in>set ms. role m = ''user''")
  case False
  then have "remove_last_user ms = ms" by (simp add: remove_last_user_none)
  moreover have "role (last ms) \<noteq> ''user''" if "ms \<noteq> []"
    using False that last_in_set by blast
  ultimately show ?thesis by auto
next
  case True
  then obtain pre m post where ms: "ms = pre @ m # post" and m: "role m = ''user''"
    and post: "\<forall>x\<in>set post. role x \<noteq> ''user''" by (rule user_split)
  have h: "remove_last_user ms = pre @ post"
    using m post by (simp add: ms remove_last_user_split)
  show ?thesis
  proof (cases "post = []")
    case True
    have "(pre \<noteq> [] \<and> role (last pre) = ''user'') \<longleftrightarrow>
          (2 \<le> length (pre @ [m]) \<and> role (last (pre @ [m])) = ''user'' \<and>
           role (last (butlast (pre @ [m]))) = ''user'')"
      using m by (cases pre) auto
    then show ?thesis using h ms True by simp
  next
    case False
    then have "role (last post) \<noteq> ''user''" using post last_in_set by blast
    then have "role (last (pre @ post)) \<noteq> ''user''" "role (last (pre @ m # post)) \<noteq> ''user''"
      using False by simp_all
    then show ?thesis using h ms by simp
  qed
qed

section \<open>What the generate endpoint passes to the chain\<close>

lemma app_example_call_ok:
  assumes "app_example s = Some c" and "cls_init c (world s) = (None, w1)"
  shows "app_example_call s =
           (Inr (c, next_obj s),
            s\<lparr>world := w1, next_obj := Suc (next_obj s),
              trace := trace s @ [Instantiate (cls_name c) (next_obj s)]\<rparr>)"
  using assms by (simp add: app_example_call_def instantiate_def run_def)

lemma app_example_call_raises:
  assumes "app_example s = Some c" and "cls_init c (world s) = (Some e, w1)"
  shows "app_example_call s = (Inl e, s\<lparr>world := w1\<rparr>)"
  using assms by (simp add: app_example_call_def instantiate_def run_def)

lemma trace_generate_except:
  "trace (snd (generate_except e s)) =
     trace s @ [LogError ((if isinstance e [''MilvusException'', ''MilvusUnavailableException'']
                           then milvus_error else generate_error) @ exn_msg e)]"
  by (simp add: generate_except_def emit_def)

lemma trace_generate_try:
  assumes "app_example s = Some c" and "cls_init c (world s) = (None, w1)"
  shows "trace (snd (generate_try p q h kw s)) =
           trace s @ Instantiate (cls_name c) (next_obj s) #
             (if use_knowledge_base p then [LogInfo rag_info, CallRagChain (next_obj s) q h kw]
              else [CallLlmChain (next_obj s) q h kw])"
  by (simp add: generate_try_def app_example_call_ok [OF assms] run_def emit_def
      split: prod.split sum.split)

lemma trace_generate_answer:
  "trace (snd (generate_answer p s)) =
     (let h = remove_last_user (messages p);
          r = generate_try (p\<lparr>messages := h\<rparr>) (last_user_message (messages p)) h
                (llm_settings (p\<lparr>messages := h\<rparr>)) s
      in trace (snd r) @
         (case fst r of
            Inl e \<Rightarrow> [LogError ((if isinstance e [''MilvusException'', ''MilvusUnavailableException'']
                           then milvus_error else generate_error) @ exn_msg e)]
          | Inr response \<Rightarrow> []))"
  by (simp add: generate_answer_def Let_def trace_generate_except split: prod.split sum.split)

lemma chain_calls_append: "chain_calls (xs @ ys) = chain_calls xs @ chain_calls ys"
  by (simp add: chain_calls_def List.map_filter_def)

lemma chain_calls_LogError: "chain_calls [LogError m] = []"
  by (simp add: chain_calls_def List.map_filter_def)

lemma chain_calls_generate:
  assumes "app_example s = Some c" and "cls_init c (world s) = (None, w1)"
  shows "chain_calls (new_events s (snd (generate_answer p s))) =
           [(if use_knowledge_base p then ''rag_chain'' else ''llm_chain'', next_obj s,
             last_user_message (messages p), remove_last_user (messages p),
             llm_settings (p\<lparr>messages := remove_last_user (messages p)\<rparr>))]"
proof -
  have "chain_calls (case r of Inl e \<Rightarrow> [LogError (f e)] | Inr x \<Rightarrow> []) = []"
    for r :: "pyexn + 'x" and f
    by (cases r) (simp_all add: chain_calls_def List.map_filter_def)
  then show ?thesis
    by (simp add: new_events_def trace_generate_answer Let_def trace_generate_try [OF assms]
        chain_calls_append)
      (simp add: chain_calls_def List.map_filter_def)
qed

lemma generate_answer_streams:
  assumes "app_example s = Some c" and "cls_init c (world s) = (None, w1)"
    and "(if use_knowledge_base p then rag_chain c else llm_chain c)
           (last_user_message (messages p)) (remove_last_user (messages p))
           (llm_settings (p\<lparr>messages := remove_last_user (messages p)\<rparr>)) w1 = (Inr g, w2)"
  shows "fst (generate_answer p s) = StreamingResponse (Generator g) ''text/event-stream''"
  using assms(3)
  by (cases "use_knowledge_base p")
    (simp_all add: generate_answer_def generate_try_def
      app_example_call_ok [OF assms(1,2)] run_def emit_def Let_def)

text \<open>
  C2. With the example class instantiated, the one chain call of a request gets: when the
  last message is a user message, that message's content as the query and the list
  without its last element as the history; when no message is a user message, no query
  and the list as it came.
\<close>

theorem generate_query_and_history:
  assumes "app_example s = Some c" and "fst (cls_init c (world s)) = None"
  shows "(messages p \<noteq> [] \<and> role (last (messages p)) = ''user'' \<longrightarrow>
            last_user_message (messages p) = Some (content (last (messages p))) \<and>
            remove_last_user (messages p) = butlast (messages p) \<and>
            map (\<lambda>(n, obj, q, h, kw). (q, h))
                (chain_calls (new_events s (snd (generate_answer p s)))) =
              [(Some (content (last (messages p))), butlast (messages p))]) \<and>
         ((\<forall>m\<in>set (messages p). role m \<noteq> ''user'') \<longrightarrow>
            last_user_message (messages p) = None \<and>
            remove_last_user (messages p) = messages p \<and>
            map (\<lambda>(n, obj, q, h, kw). (q, h))
                (chain_calls (new_events s (snd (generate_answer p s)))) =
              [(None, messages p)])"
proof -
  obtain w1 where w1: "cls_init c (world s) = (None, w1)"
    using assms(2) by (cases "cls_init c (world s)") simp
  note calls = chain_calls_generate [OF assms(1) w1, of p]
  show ?thesis
    by (simp add: calls last_user_is_last last_user_message_none remove_last_user_none)
qed

lemma stub_ready:
  "app_example (stub_server (Some c)) = Some c"
  "world (stub_server (Some c)) = ()"
  "next_obj (stub_server (Some c)) = 0"
  "cls_init (stub_example i g r d) w = (i, w)"
  "rag_chain (stub_example i g r d) q h kw w = (r, w)"
  "llm_chain (stub_example i g r d) q h kw w = (r, w)"
  by (simp_all add: stub_server_def stub_example_def)

lemma stub_prompt_sel:
  "messages (stub_prompt ms kb) = map (\<lambda>(r, c). \<lparr>role = r, content = c\<rparr>) ms"
  "use_knowledge_base (stub_prompt ms kb) = kb"
  by (simp_all add: stub_prompt_def)

theorem generate_query_and_history_witness:
  "map (\<lambda>(n, obj, q, h, kw). (q, h))
     (chain_calls (new_events (stub_server (Some stub_ok))
        (snd (generate_answer
           (stub_prompt [(''user'', ''hi''), (''assistant'', ''hello''), (''user'', ''what is RAG?'')] True)
           (stub_server (Some stub_ok)))))) =
     [(Some ''what is RAG?'',
       [\<lparr>role = ''user'', content = ''hi''\<rparr>, \<lparr>role = ''assistant'', content = ''hello''\<rparr>])] \<and>
   map (\<lambda>(n, obj, q, h, kw). (q, h))
     (chain_calls (new_events (stub_server (Some stub_ok))
        (snd (generate_answer (stub_prompt [(''system'', ''be brief'')] False)
           (stub_server (Some stub_ok)))))) =
     [(None, [\<lparr>role = ''system'', content = ''be brief''\<rparr>])]"
  using generate_query_and_history [of "stub_server (Some stub_ok)" stub_ok
      "stub_prompt [(''user'', ''hi''), (''assistant'', ''hello''), (''user'', ''what is RAG?'')] True"]
    generate_query_and_history [of "stub_server (Some stub_ok)" stub_ok
      "stub_prompt [(''system'', ''be brief'')] False"]
  by (simp add: stub_ready stub_ok_def stub_prompt_sel)

text \<open>
  C9. With the example class instantiated, a request makes exactly one chain call, on the
  object it has just created: \<^verbatim>\<open>rag_chain\<close> when \<^verbatim>\<open>use_knowledge_base\<close> is true, \<^verbatim>\<open>llm_chain\<close>
  when it is false, in both cases with the extracted query, the remaining history and
  the settings. When the call returns a generator, the response streams it.
\<close>

theorem generate_dispatch:
  assumes "app_example s = Some c" and "cls_init c (world s) = (None, w1)"
  shows "chain_calls (new_events s (snd (generate_answer p s))) =
           [(if use_knowledge_base p then ''rag_chain'' else ''llm_chain'', next_obj s,
             last_user_message (messages p), remove_last_user (messages p),
             llm_settings (p\<lparr>messages := remove_last_user (messages p)\<rparr>))] \<and>
         (\<forall>g w2. (if use_knowledge_base p then rag_chain c else llm_chain c)
                    (last_user_message (messages p)) (remove_last_user (messages p))
                    (llm_settings (p\<lparr>messages := remove_last_user (messages p)\<rparr>)) w1 = (Inr g, w2) \<longrightarrow>
                fst (generate_answer p s) = StreamingResponse (Generator g) ''text/event-stream'')"
  using chain_calls_generate [OF assms, of p] generate_answer_streams [OF assms, of p]
  by blast

lemma stub_history:
  "last_user_message [\<lparr>role = ''user'', content = ''hi''\<rparr>] = Some ''hi''"
  "remove_last_user [\<lparr>role = ''user'', content = ''hi''\<rparr>] = []"
  by (simp_all add: last_user_message_def remove_last_user_def)

theorem generate_dispatch_witness:
  "map (\<lambda>(n, obj, q, h, kw). (n, q, h))
     (chain_calls (new_events (stub_server (Some stub_ok))
        (snd (generate_answer (stub_prompt [(''user'', ''hi'')] True)
           (stub_server (Some stub_ok)))))) = [(''rag_chain'', Some ''hi'', [])] \<and>
   map (\<lambda>(n, obj, q, h, kw). (n, q, h))
     (chain_calls (new_events (stub_server (Some stub_ok))
        (snd (generate_answer (stub_prompt [(''user'', ''hi'')] False)
           (stub_server (Some stub_ok)))))) = [(''llm_chain'', Some ''hi'', [])] \<and>
   fst (generate_answer (stub_prompt [(''user'', ''hi'')] True) (stub_server (Some stub_ok))) =
     StreamingResponse (Generator [''chunk'']) ''text/event-stream''"
  using generate_dispatch [of "stub_server (Some stub_ok)" stub_ok "()"
      "stub_prompt [(''user'', ''hi'')] True"]
    generate_dispatch [of "stub_server (Some stub_ok)" stub_ok "()"
      "stub_prompt [(''user'', ''hi'')] False"]
  by (simp add: stub_ready stub_ok_def stub_prompt_sel stub_history)

section \<open>The settings\<close>

lemma mk_Prompt_fields:
  assumes "mk_Prompt j = Inr p"
  shows "temperature p = field_default (2 / 10) (json_temperature j) \<and>
         top_p p = field_default (7 / 10) (json_top_p j) \<and>
         max_tokens p = field_default 1024 (json_max_tokens j) \<and>
         seed p = field_default 42 (json_seed j) \<and>
         bad p = json_bad j \<and> stop p = json_stop j \<and>
         stream p = field_default False (json_stream j)"
  using assms by (auto simp: mk_Prompt_def split: option.splits sum.splits)

lemma llm_settings_mk_Prompt:
  assumes "mk_Prompt j = Inr p"
  shows "llm_settings (p\<lparr>messages := ms\<rparr>) =
           [(''temperature'', PyFloat (case json_temperature j of None \<Rightarrow> 0.2 | Some t \<Rightarrow> t)),
            (''top_p'', PyFloat (case json_top_p j of None \<Rightarrow> 0.7 | Some t \<Rightarrow> t)),
            (''max_tokens'', PyInt (case json_max_tokens j of None \<Rightarrow> 1024 | Some n \<Rightarrow> n)),
            (''seed'', PyInt (case json_seed j of None \<Rightarrow> 42 | Some n \<Rightarrow> n)),
            (''bad'', case json_bad j of None \<Rightarrow> PyNone | Some ws \<Rightarrow> PyStrList ws),
            (''stop'', case json_stop j of None \<Rightarrow> PyNone | Some ws \<Rightarrow> PyStrList ws),
            (''stream'', PyBool (case json_stream j of None \<Rightarrow> False | Some b \<Rightarrow> b))]"
  using mk_Prompt_fields [OF assms]
  by (simp add: llm_settings_def vars_Prompt_def field_default_def py_optional_strs_def
      cong: option.case_cong)

text \<open>
  C4. For a prompt built from a request body, the settings of the chain call are the seven
  fields \<^verbatim>\<open>temperature\<close>, \<^verbatim>\<open>top_p\<close>, \<^verbatim>\<open>max_tokens\<close>, \<^verbatim>\<open>seed\<close>, \<^verbatim>\<open>bad\<close>, \<^verbatim>\<open>stop\<close> and \<^verbatim>\<open>stream\<close>, in
  this order and nothing else: each with the value of the body, or with its default (0.2,
  0.7, 1024, 42, \<^verbatim>\<open>None\<close>, \<^verbatim>\<open>None\<close>, \<^verbatim>\<open>False\<close>) when the body leaves it out.
\<close>

theorem generate_settings:
  assumes "mk_Prompt j = Inr p" and "app_example s = Some c"
    and "fst (cls_init c (world s)) = None"
  shows "map (\<lambda>(n, obj, q, h, kw). kw)
             (chain_calls (new_events s (snd (generate_answer p s)))) =
           [[(''temperature'', PyFloat (case json_temperature j of None \<Rightarrow> 0.2 | Some t \<Rightarrow> t)),
             (''top_p'', PyFloat (case json_top_p j of None \<Rightarrow> 0.7 | Some t \<Rightarrow> t)),
             (''max_tokens'', PyInt (case json_max_tokens j of None \<Rightarrow> 1024 | Some n \<Rightarrow> n)),
             (''seed'', PyInt (case json_seed j of None \<Rightarrow> 42 | Some n \<Rightarrow> n)),
             (''bad'', case json_bad j of None \<Rightarrow> PyNone | Some ws \<Rightarrow> PyStrList ws),
             (''stop'', case json_stop j of None \<Rightarrow> PyNone | Some ws \<Rightarrow> PyStrList ws),
             (''stream'', PyBool (case json_stream j of None \<Rightarrow> False | Some b \<Rightarrow> b))]]"
proof -
  obtain w1 where w1: "cls_init c (world s) = (None, w1)"
    using assms(3) by (cases "cls_init c (world s)") simp
  show ?thesis
    by (simp add: chain_calls_generate [OF assms(2) w1] llm_settings_mk_Prompt [OF assms(1)])
qed

lemma stub_json:
  "mk_Prompt \<lparr>json_messages = Some [(''User'', ''hi'')], json_use_knowledge_base = Some True,
      json_temperature = Some 0.5, json_top_p = None, json_max_tokens = None,
      json_seed = Some 7, json_bad = None, json_stop = Some [''END''], json_stream = None\<rparr> =
   Inr \<lparr>messages = [\<lparr>role = ''user'', content = ''hi''\<rparr>], use_knowledge_base = True,
        temperature = 0.5, top_p = 0.7, max_tokens = 1024, seed = 7, bad = None,
        stop = Some [''END''], stream = False\<rparr>"
  by (simp add: mk_Prompt_def mk_Message_def validate_role_def valid_roles_def str_lower_def
      char_lower_def field_default_def)

theorem generate_settings_witness:
  "map (\<lambda>(n, obj, q, h, kw). kw)
     (chain_calls (new_events (stub_server (Some stub_ok))
        (snd (generate_answer
           \<lparr>messages = [\<lparr>role = ''user'', content = ''hi''\<rparr>], use_knowledge_base = True,
            temperature = 0.5, top_p = 0.7, max_tokens = 1024, seed = 7, bad = None,
            stop = Some [''END''], stream = False\<rparr>
           (stub_server (Some stub_ok)))))) =
     [[(''temperature'', PyFloat 0.5), (''top_p'', PyFloat 0.7), (''max_tokens'', PyInt 1024),
       (''seed'', PyInt 7), (''bad'', PyNone), (''stop'', PyStrList [''END'']),
       (''stream'', PyBool False)]]"
  using generate_settings [OF stub_json, of "stub_server (Some stub_ok)" stub_ok]
  by (simp add: stub_ready stub_ok_def)

section \<open>Exceptions of the generate endpoint\<close>

lemma generate_answer_raised:
  assumes "generate_try (p\<lparr>messages := remove_last_user (messages p)\<rparr>)
             (last_user_message (messages p)) (remove_last_user (messages p))
             (llm_settings (p\<lparr>messages := remove_last_user (messages p)\<rparr>)) s = (Inl e, s1)"
  shows "fst (generate_answer p s) =
           \<lparr>body_iterator =
              Iter [if isinstance e [''MilvusException'', ''MilvusUnavailableException'']
                    then milvus_chunk else server_chunk],
            media_type = ''text/event-stream'', status_code = 200\<rparr>"
  using assms
  by (simp add: generate_answer_def Let_def generate_except_def StreamingResponse_def)

lemma chunks_differ: "milvus_chunk \<noteq> server_chunk"
  by (simp add: milvus_chunk_def server_chunk_def)

text \<open>
  C5. When the dispatch raises, be it the instantiation of the example class or the call
  of the chosen chain, the response is a stream with status 200 and a single chunk: the
  Milvus text when the exception is an instance of \<^verbatim>\<open>MilvusException\<close> or
  \<^verbatim>\<open>MilvusUnavailableException\<close>, the chain-server text otherwise. The two texts differ.
\<close>

theorem generate_exception_in_band:
  assumes "app_example s = Some c"
    and "q = last_user_message (messages p)"
    and "h = remove_last_user (messages p)"
    and "kw = llm_settings (p\<lparr>messages := remove_last_user (messages p)\<rparr>)"
    and "cls_init c (world s) = (Some e, w1) \<or>
         cls_init c (world s) = (None, w1) \<and> use_knowledge_base p \<and>
           rag_chain c q h kw w1 = (Inl e, w2) \<or>
         cls_init c (world s) = (None, w1) \<and> \<not> use_knowledge_base p \<and>
           llm_chain c q h kw w1 = (Inl e, w2)"
  shows "fst (generate_answer p s) =
           \<lparr>body_iterator =
              Iter [if isinstance e [''MilvusException'', ''MilvusUnavailableException'']
                    then milvus_chunk else server_chunk],
            media_type = ''text/event-stream'', status_code = 200\<rparr> \<and>
         milvus_chunk \<noteq> server_chunk"
proof -
  have "\<exists>s1. generate_try (p\<lparr>messages := remove_last_user (messages p)\<rparr>) q h kw s = (Inl e, s1)"
    using assms(5)
  proof (elim disjE conjE)
    assume "cls_init c (world s) = (Some e, w1)"
    then show ?thesis
      by (simp add: generate_try_def app_example_call_raises [OF assms(1)])
  next
    assume "cls_init c (world s) = (None, w1)" "use_knowledge_base p"
      "rag_chain c q h kw w1 = (Inl e, w2)"
    then show ?thesis
      by (simp add: generate_try_def app_example_call_ok [OF assms(1)] run_def emit_def)
  next
    assume "cls_init c (world s) = (None, w1)" "\<not> use_knowledge_base p"
      "llm_chain c q h kw w1 = (Inl e, w2)"
    then show ?thesis
      by (simp add: generate_try_def app_example_call_ok [OF assms(1)] run_def emit_def)
  qed
  then show ?thesis
    using generate_answer_raised [of p s e] chunks_differ
    by (auto simp: assms(2-4))
qed

theorem generate_exception_in_band_witness:
  "fst (generate_answer (stub_prompt [(''user'', ''hi'')] True)
          (stub_server (Some (stub_example None None
             (Inl (PyExn ''MilvusUnavailableException'' [''MilvusException''] ''down''))
             (Inr []))))) =
     \<lparr>body_iterator = Iter [milvus_chunk], media_type = ''text/event-stream'',
      status_code = 200\<rparr> \<and>
   fst (generate_answer (stub_prompt [(''user'', ''hi'')] False)
          (stub_server (Some (stub_example (Some (RuntimeError ''no model'')) None
             (Inr []) (Inr []))))) =
     \<lparr>body_iterator = Iter [server_chunk], media_type = ''text/event-stream'',
      status_code = 200\<rparr>"
proof -
  let ?m = "PyExn ''MilvusUnavailableException'' [''MilvusException''] ''down''"
  let ?c1 = "stub_example None None (Inl ?m) (Inr [])"
  let ?c2 = "stub_example (Some (RuntimeError ''no model'')) None (Inr []) (Inr [])"
  have m: "isinstance ?m [''MilvusException'', ''MilvusUnavailableException'']"
    by (simp add: isinstance_def)
  have r: "\<not> isinstance (RuntimeError ''no model'') [''MilvusException'', ''MilvusUnavailableException'']"
    by (simp add: isinstance_def RuntimeError_def)
  show ?thesis
    using generate_exception_in_band [of "stub_server (Some ?c1)" ?c1 _
        "stub_prompt [(''user'', ''hi'')] True" _ _ ?m "()" "()", OF _ refl refl refl]
      generate_exception_in_band [of "stub_server (Some ?c2)" ?c2 _
        "stub_prompt [(''user'', ''hi'')] False" _ _ "RuntimeError ''no model''" "()" "()",
        OF _ refl refl refl]
    by (simp add: stub_ready stub_prompt_sel m r)
qed

section \<open>The end of the history\<close>

text \<open>
  C3, as amended. The history left after the removal ends with a user message exactly
  when the last two messages of the request are both user messages. In every other
  case, with the roles validated, its last message, if there is one, is an assistant or
  a system message.
\<close>

theorem history_after_removal:
  "((remove_last_user ms \<noteq> [] \<and> role (last (remove_last_user ms)) = ''user'') \<longleftrightarrow>
    (2 \<le> length ms \<and> role (last ms) = ''user'' \<and> role (last (butlast ms)) = ''user'')) \<and>
   ((\<forall>m\<in>set ms. role m \<in> {''user'', ''assistant'', ''system''}) \<and>
    \<not> (2 \<le> length ms \<and> role (last ms) = ''user'' \<and> role (last (butlast ms)) = ''user'') \<and>
    remove_last_user ms \<noteq> [] \<longrightarrow>
      role (last (remove_last_user ms)) \<in> {''assistant'', ''system''})"
proof -
  have "role (last (remove_last_user ms)) \<in> {''user'', ''assistant'', ''system''}"
    if "\<forall>m\<in>set ms. role m \<in> {''user'', ''assistant'', ''system''}" "remove_last_user ms \<noteq> []"
    using that set_remove_last_user [of ms] last_in_set [OF that(2)] by blast
  then show ?thesis using history_ends_with_user_iff [of ms] by blast
qed

theorem history_after_removal_witness:
  "remove_last_user [\<lparr>role = ''user'', content = ''a''\<rparr>, \<lparr>role = ''assistant'', content = ''b''\<rparr>,
      \<lparr>role = ''user'', content = ''c''\<rparr>] =
     [\<lparr>role = ''user'', content = ''a''\<rparr>, \<lparr>role = ''assistant'', content = ''b''\<rparr>] \<and>
   role (last (remove_last_user [\<lparr>role = ''user'', content = ''a''\<rparr>,
      \<lparr>role = ''assistant'', content = ''b''\<rparr>, \<lparr>role = ''user'', content = ''c''\<rparr>])) \<in>
     {''assistant'', ''system''}"
proof -
  let ?ms = "[\<lparr>role = ''user'', content = ''a''\<rparr>, \<lparr>role = ''assistant'', content = ''b''\<rparr>,
      \<lparr>role = ''user'', content = ''c''\<rparr>]"
  have h: "remove_last_user ?ms =
      [\<lparr>role = ''user'', content = ''a''\<rparr>, \<lparr>role = ''assistant'', content = ''b''\<rparr>]"
    by (simp add: remove_last_user_def)
  show ?thesis using history_after_removal [of ?ms] by (simp add: h)
qed

text \<open>
  A request of two user messages: the second is the query, and the history passed to the
  chain is the first, a user message.
\<close>

theorem history_ends_with_user_counterexample:
  "mk_Messages [(''user'', ''first''), (''user'', ''second'')] =
     Inr [\<lparr>role = ''user'', content = ''first''\<rparr>, \<lparr>role = ''user'', content = ''second''\<rparr>] \<and>
   map (\<lambda>(n, obj, q, h, kw). (q, h))
     (chain_calls (new_events (stub_server (Some stub_ok))
        (snd (generate_answer
           (stub_prompt [(''user'', ''first''), (''user'', ''second'')] True)
           (stub_server (Some stub_ok)))))) =
     [(Some ''second'', [\<lparr>role = ''user'', content = ''first''\<rparr>])] \<and>
   role (last (remove_last_user
     [\<lparr>role = ''user'', content = ''first''\<rparr>, \<lparr>role = ''user'', content = ''second''\<rparr>])) =
     ''user'' \<and>
   role (last (remove_last_user
     [\<lparr>role = ''user'', content = ''first''\<rparr>, \<lparr>role = ''user'', content = ''second''\<rparr>])) \<notin>
     {''assistant'', ''system''}"
proof -
  have h: "remove_last_user
      [\<lparr>role = ''user'', content = ''first''\<rparr>, \<lparr>role = ''user'', content = ''second''\<rparr>] =
      [\<lparr>role = ''user'', content = ''first''\<rparr>]"
    by (simp add: remove_last_user_def)
  have q: "last_user_message
      [\<lparr>role = ''user'', content = ''first''\<rparr>, \<lparr>role = ''user'', content = ''second''\<rparr>] =
      Some ''second''"
    by (simp add: last_user_message_def)
  have m: "mk_Messages [(''user'', ''first''), (''user'', ''second'')] =
     Inr [\<lparr>role = ''user'', content = ''first''\<rparr>, \<lparr>role = ''user'', content = ''second''\<rparr>]"
    by (simp add: mk_Message_def validate_role_def valid_roles_def str_lower_def char_lower_def)
  have c: "cls_init stub_ok (world (stub_server (Some stub_ok))) = (None, ())"
    by (simp add: stub_ready stub_ok_def)
  have calls: "map (\<lambda>(n, obj, q, h, kw). (q, h))
     (chain_calls (new_events (stub_server (Some stub_ok))
        (snd (generate_answer
           (stub_prompt [(''user'', ''first''), (''user'', ''second'')] True)
           (stub_server (Some stub_ok)))))) =
     [(Some ''second'', [\<lparr>role = ''user'', content = ''first''\<rparr>])]"
    using chain_calls_generate [OF stub_ready(1) c,
        of "stub_prompt [(''user'', ''first''), (''user'', ''second'')] True"]
    by (simp add: h q stub_prompt_sel)
  show ?thesis
    by (intro conjI) (rule m, rule calls, simp_all add: h)
qed

section \<open>The upload endpoint: file names\<close>

lemma basename_no_slash: "CHR ''/'' \<notin> set (os_path_basename p)"
  using set_takeWhileD [of "CHR ''/''" "\<lambda>c. c \<noteq> CHR ''/''" "rev p"]
  by (auto simp: os_path_basename_def)

lemma basename_suffix:
  "\<exists>pre. p = pre @ os_path_basename p \<and> (pre = [] \<or> last pre = CHR ''/'')"
proof -
  let ?P = "\<lambda>c. c \<noteq> CHR ''/''"
  have "rev (takeWhile ?P (rev p) @ dropWhile ?P (rev p)) = p" by simp
  then have p: "p = rev (dropWhile ?P (rev p)) @ os_path_basename p"
    by (simp only: rev_append os_path_basename_def)
  have "last (rev (dropWhile ?P (rev p))) = CHR ''/''" if "dropWhile ?P (rev p) \<noteq> []"
    using that hd_dropWhile [of ?P "rev p"] by (simp add: last_rev)
  then show ?thesis using p by blast
qed

lemma basename_empty_iff: "p \<noteq> [] \<Longrightarrow> os_path_basename p = [] \<longleftrightarrow> last p = CHR ''/''"
  by (cases p rule: rev_cases) (auto simp: os_path_basename_def)

lemma join_upload_folder:
  assumes "b \<noteq> []" and "CHR ''/'' \<notin> set b"
  shows "os_path_join ''uploaded_files'' b = ''uploaded_files/'' @ b"
proof -
  have "hd b \<noteq> CHR ''/''" using assms by (cases b) auto
  then show ?thesis by (simp add: os_path_join_def)
qed

text \<open>
  C6. An upload whose file name is missing or empty is answered with status 200 and the
  message \<^verbatim>\<open>No files provided\<close>. The state of the process is returned as it was: nothing
  is written, no directory is made, the example class is neither instantiated nor called.
\<close>

theorem upload_without_filename:
  assumes "filename f = None \<or> filename f = Some []"
  shows "upload_document os f s =
           (\<lparr>json_content = [(''message'', ''No files provided'')], json_status_code = 200\<rparr>, s) \<and>
         trace (snd (upload_document os f s)) = trace s \<and>
         world (snd (upload_document os f s)) = world s \<and>
         new_events s (snd (upload_document os f s)) = []"
  using assms by (auto simp: upload_document_def no_files_def new_events_def)

theorem upload_without_filename_witness:
  "upload_document stub_os \<lparr>filename = Some [], file_bytes = ''data''\<rparr> (stub_server (Some stub_ok)) =
     (\<lparr>json_content = [(''message'', ''No files provided'')], json_status_code = 200\<rparr>,
      stub_server (Some stub_ok)) \<and>
   upload_document stub_os \<lparr>filename = None, file_bytes = ''data''\<rparr> (stub_server (Some stub_ok)) =
     (\<lparr>json_content = [(''message'', ''No files provided'')], json_status_code = 200\<rparr>,
      stub_server (Some stub_ok)) \<and>
   trace (snd (upload_document stub_os \<lparr>filename = Some [], file_bytes = ''data''\<rparr>
     (stub_server (Some stub_ok)))) = []"
  using upload_without_filename [of "\<lparr>filename = Some [], file_bytes = ''data''\<rparr>" stub_os
      "stub_server (Some stub_ok)"]
    upload_without_filename [of "\<lparr>filename = None, file_bytes = ''data''\<rparr>" stub_os
      "stub_server (Some stub_ok)"]
  by (simp add: stub_server_def)

lemma upload_try_empty:
  "os_path_basename fname = [] \<Longrightarrow>
     upload_try os fname data s = (Some (RuntimeError filename_error), s)"
  by (simp add: upload_try_def)

lemma trace_upload_try:
  assumes "os_path_basename fname = b" and "b \<noteq> []" and "path = ''uploaded_files/'' @ b"
  shows "trace (snd (upload_try os fname data s)) =
           trace s @
           (case mkdir os ''uploaded_files'' (world s) of
              (Some e, w1) \<Rightarrow> [Mkdir ''uploaded_files'']
            | (None, w1) \<Rightarrow>
                (case write_file os path data w1 of
                   (Some e, w2) \<Rightarrow> [Mkdir ''uploaded_files'', WriteFile path data]
                 | (None, w2) \<Rightarrow>
                     (case app_example s of
                        None \<Rightarrow> [Mkdir ''uploaded_files'', WriteFile path data]
                      | Some c \<Rightarrow>
                          (case cls_init c w2 of
                             (Some e, w3) \<Rightarrow> [Mkdir ''uploaded_files'', WriteFile path data]
                           | (None, w3) \<Rightarrow>
                               [Mkdir ''uploaded_files'', WriteFile path data,
                                Instantiate (cls_name c) (next_obj s),
                                CallIngestDocs (next_obj s) path b]))))"
proof -
  have j: "os_path_join ''uploaded_files'' b = path"
    using assms basename_no_slash [of fname] by (simp add: join_upload_folder)
  show ?thesis
    using assms(1,2)
    by (simp add: upload_try_def Let_def j run_def emit_def app_example_call_def instantiate_def
        split: prod.split option.split sum.split)
qed

lemma trace_upload_document:
  assumes "filename f = Some fname" and "fname \<noteq> []"
  shows "trace (snd (upload_document os f s)) =
           trace (snd (upload_try os fname (file_bytes f) s)) @
           (case fst (upload_try os fname (file_bytes f) s) of
              None \<Rightarrow> []
            | Some e \<Rightarrow> [LogError (upload_error fname (exn_msg e))])"
  using assms by (simp add: upload_document_def emit_def split: prod.split option.split)

lemma upload_try_events:
  assumes "os_path_basename fname = b" and "b \<noteq> []" and "path = ''uploaded_files/'' @ b"
  shows "\<forall>ev \<in> set (new_events s (snd (upload_try os fname data s))).
           is_disk_or_ingest ev \<longrightarrow>
             ev = Mkdir ''uploaded_files'' \<or> ev = WriteFile path data \<or>
             ev = CallIngestDocs (next_obj s) path b"
proof -
  note tr = trace_upload_try [OF assms, of os data s]
  obtain r1 w1 where m: "mkdir os ''uploaded_files'' (world s) = (r1, w1)"
    by (cases "mkdir os ''uploaded_files'' (world s)")
  obtain r2 w2 where w: "write_file os path data w1 = (r2, w2)"
    by (cases "write_file os path data w1")
  show ?thesis
  proof (cases r1)
    case (Some e)
    then show ?thesis by (simp add: new_events_def tr m)
  next
    case r1: None
    show ?thesis
    proof (cases r2)
      case (Some e)
      then show ?thesis by (simp add: new_events_def tr m r1 w)
    next
      case r2: None
      show ?thesis
      proof (cases "app_example s")
        case None
        then show ?thesis by (simp add: new_events_def tr m r1 w r2)
      next
        case (Some c)
        obtain r3 w3 where i: "cls_init c w2 = (r3, w3)"
          by (cases "cls_init c w2")
        show ?thesis
          by (cases r3) (simp_all add: new_events_def tr m r1 w r2 Some i)
      qed
    qed
  qed
qed

lemma upload_events:
  assumes "filename f = Some fname" and "fname \<noteq> []"
    and "os_path_basename fname = b" and "b \<noteq> []" and "path = ''uploaded_files/'' @ b"
  shows "\<forall>ev \<in> set (new_events s (snd (upload_document os f s))).
           is_disk_or_ingest ev \<longrightarrow>
             ev = Mkdir ''uploaded_files'' \<or> ev = WriteFile path (file_bytes f) \<or>
             ev = CallIngestDocs (next_obj s) path b"
proof -
  have "\<exists>evs. trace (snd (upload_try os fname (file_bytes f) s)) = trace s @ evs"
    by (simp add: trace_upload_try [OF assms(3,4,5)])
  then obtain evs where evs: "trace (snd (upload_try os fname (file_bytes f) s)) = trace s @ evs"
    by blast
  have "new_events s (snd (upload_document os f s)) =
          new_events s (snd (upload_try os fname (file_bytes f) s)) @
          (case fst (upload_try os fname (file_bytes f) s) of
              None \<Rightarrow> []
            | Some e \<Rightarrow> [LogError (upload_error fname (exn_msg e))])"
    by (simp add: new_events_def trace_upload_document [OF assms(1,2)] evs)
  then show ?thesis
    using upload_try_events [OF assms(3,4,5), of s os "file_bytes f"]
    by (auto split: option.splits)
qed

lemma upload_success:
  assumes "filename f = Some fname" and "fname \<noteq> []"
    and "os_path_basename fname = b" and "b \<noteq> []" and "path = ''uploaded_files/'' @ b"
    and "mkdir os ''uploaded_files'' (world s) = (None, w1)"
    and "write_file os path (file_bytes f) w1 = (None, w2)"
    and "app_example s = Some c" and "cls_init c w2 = (None, w3)"
    and "ingest_docs c path b w3 = (r, w4)"
  shows "fst (upload_document os f s) =
           (case r of
              None \<Rightarrow> \<lparr>json_content = [(''message'', ''File uploaded successfully'')],
                         json_status_code = 200\<rparr>
            | Some e \<Rightarrow> \<lparr>json_content = [(''message'', exn_msg e)], json_status_code = 500\<rparr>)"
    and "new_events s (snd (upload_document os f s)) =
           [Mkdir ''uploaded_files'', WriteFile path (file_bytes f),
            Instantiate (cls_name c) (next_obj s), CallIngestDocs (next_obj s) path b] @
           (case r of None \<Rightarrow> [] | Some e \<Rightarrow> [LogError (upload_error fname (exn_msg e))])"
proof -
  have j: "os_path_join ''uploaded_files'' b = path"
    using assms(3,4,5) basename_no_slash [of fname] by (simp add: join_upload_folder)
  have t: "upload_try os fname (file_bytes f) s =
             (r, s\<lparr>world := w4, next_obj := Suc (next_obj s),
                   trace := trace s @ [Mkdir ''uploaded_files'', WriteFile path (file_bytes f),
                     Instantiate (cls_name c) (next_obj s),
                     CallIngestDocs (next_obj s) path b]\<rparr>)"
    using assms(3,4,6-10)
    by (simp add: upload_try_def Let_def j run_def emit_def app_example_call_def instantiate_def)
  show "fst (upload_document os f s) =
           (case r of
              None \<Rightarrow> \<lparr>json_content = [(''message'', ''File uploaded successfully'')],
                         json_status_code = 200\<rparr>
            | Some e \<Rightarrow> \<lparr>json_content = [(''message'', exn_msg e)], json_status_code = 500\<rparr>)"
    using assms(1,2) by (simp add: upload_document_def t split: option.split)
  show "new_events s (snd (upload_document os f s)) =
           [Mkdir ''uploaded_files'', WriteFile path (file_bytes f),
            Instantiate (cls_name c) (next_obj s), CallIngestDocs (next_obj s) path b] @
           (case r of None \<Rightarrow> [] | Some e \<Rightarrow> [LogError (upload_error fname (exn_msg e))])"
    using assms(1,2)
    by (simp add: new_events_def upload_document_def t emit_def split: option.split)
qed

text \<open>
  C7. For a non-empty file name, let \<open>b\<close> be its base name: the part after the last slash,
  itself without a slash. It is empty exactly when the name ends with a slash; then the
  response has status 500 and the message of the \<^verbatim>\<open>RuntimeError\<close>, and the only event is
  the error in the log. Otherwise every directory, file and ingestion event of the
  request is the upload directory, the write of \<^verbatim>\<open>uploaded_files/\<close>\<open>b\<close>, or the call
  \<^verbatim>\<open>ingest_docs(\<close>\<^verbatim>\<open>uploaded_files/\<close>\<open>b\<close>\<^verbatim>\<open>, \<close>\<open>b\<close>\<^verbatim>\<open>)\<close>; and when nothing raises, these
  happen in this order and the response has status 200.
\<close>

theorem upload_uses_basename:
  assumes "filename f = Some fname" and "fname \<noteq> []"
    and "b = os_path_basename fname" and "path = ''uploaded_files/'' @ b"
  shows "CHR ''/'' \<notin> set b \<and>
         (\<exists>pre. fname = pre @ b \<and> (pre = [] \<or> last pre = CHR ''/'')) \<and>
         (b = [] \<longleftrightarrow> last fname = CHR ''/'') \<and>
         (b = [] \<longrightarrow>
            upload_document os f s =
              (\<lparr>json_content = [(''message'', ''Error parsing uploaded filename.'')],
                json_status_code = 500\<rparr>,
               s\<lparr>trace := trace s @
                  [LogError (upload_error fname ''Error parsing uploaded filename.'')]\<rparr>)) \<and>
         (b \<noteq> [] \<longrightarrow>
            (\<forall>ev \<in> set (new_events s (snd (upload_document os f s))).
               is_disk_or_ingest ev \<longrightarrow>
                 ev = Mkdir ''uploaded_files'' \<or> ev = WriteFile path (file_bytes f) \<or>
                 ev = CallIngestDocs (next_obj s) path b)) \<and>
         (b \<noteq> [] \<and> mkdir os ''uploaded_files'' (world s) = (None, w1) \<and>
          write_file os path (file_bytes f) w1 = (None, w2) \<and>
          app_example s = Some c \<and> cls_init c w2 = (None, w3) \<and>
          ingest_docs c path b w3 = (None, w4) \<longrightarrow>
            fst (upload_document os f s) =
              \<lparr>json_content = [(''message'', ''File uploaded successfully'')],
               json_status_code = 200\<rparr> \<and>
            new_events s (snd (upload_document os f s)) =
              [Mkdir ''uploaded_files'', WriteFile path (file_bytes f),
               Instantiate (cls_name c) (next_obj s), CallIngestDocs (next_obj s) path b])"
proof -
  have empty: "upload_document os f s =
              (\<lparr>json_content = [(''message'', ''Error parsing uploaded filename.'')],
                json_status_code = 500\<rparr>,
               s\<lparr>trace := trace s @
                  [LogError (upload_error fname ''Error parsing uploaded filename.'')]\<rparr>)"
    if "b = []"
    using that assms(1-3)
    by (simp add: upload_document_def upload_try_empty emit_def RuntimeError_def
        filename_error_def)
  have events: "\<forall>ev \<in> set (new_events s (snd (upload_document os f s))).
               is_disk_or_ingest ev \<longrightarrow>
                 ev = Mkdir ''uploaded_files'' \<or> ev = WriteFile path (file_bytes f) \<or>
                 ev = CallIngestDocs (next_obj s) path b"
    if "b \<noteq> []"
    using upload_events [OF assms(1,2) assms(3) [symmetric] that assms(4)] .
  have ok: "fst (upload_document os f s) =
              \<lparr>json_content = [(''message'', ''File uploaded successfully'')],
               json_status_code = 200\<rparr> \<and>
            new_events s (snd (upload_document os f s)) =
              [Mkdir ''uploaded_files'', WriteFile path (file_bytes f),
               Instantiate (cls_name c) (next_obj s), CallIngestDocs (next_obj s) path b]"
    if "b \<noteq> []" "mkdir os ''uploaded_files'' (world s) = (None, w1)"
      "write_file os path (file_bytes f) w1 = (None, w2)"
      "app_example s = Some c" "cls_init c w2 = (None, w3)"
      "ingest_docs c path b w3 = (None, w4)"
    using upload_success [OF assms(1,2) assms(3) [symmetric] that(1) assms(4) that(2-6)]
    by simp
  show ?thesis
    using basename_no_slash [of fname] basename_suffix [of fname]
      basename_empty_iff [OF assms(2)] empty events ok
    unfolding assms(3) [symmetric] by blast
qed

lemma stub_os_sel:
  "mkdir stub_os dir w = (None, w)"
  "write_file stub_os p b w = (None, w)"
  "ingest_docs (stub_example i g r d) p n w = (g, w)"
  "cls_name (stub_example i g r d) = ''StubExample''"
  "trace (stub_server cls) = []"
  by (simp_all add: stub_os_def stub_example_def stub_server_def)

theorem upload_uses_basename_witness:
  "os_path_basename ''../../etc/passwd'' = ''passwd'' \<and>
   fst (upload_document stub_os \<lparr>filename = Some ''../../etc/passwd'', file_bytes = ''data''\<rparr>
          (stub_server (Some stub_ok))) =
     \<lparr>json_content = [(''message'', ''File uploaded successfully'')], json_status_code = 200\<rparr> \<and>
   new_events (stub_server (Some stub_ok))
     (snd (upload_document stub_os \<lparr>filename = Some ''../../etc/passwd'', file_bytes = ''data''\<rparr>
          (stub_server (Some stub_ok)))) =
     [Mkdir ''uploaded_files'', WriteFile ''uploaded_files/passwd'' ''data'',
      Instantiate ''StubExample'' 0, CallIngestDocs 0 ''uploaded_files/passwd'' ''passwd''] \<and>
   os_path_basename ''docs/'' = [] \<and>
   upload_document stub_os \<lparr>filename = Some ''docs/'', file_bytes = ''data''\<rparr>
          (stub_server (Some stub_ok)) =
     (\<lparr>json_content = [(''message'', ''Error parsing uploaded filename.'')],
       json_status_code = 500\<rparr>,
      (stub_server (Some stub_ok))\<lparr>trace :=
         [LogError (upload_error ''docs/'' ''Error parsing uploaded filename.'')]\<rparr>)"
proof -
  have b1: "os_path_basename ''../../etc/passwd'' = ''passwd''"
    by (simp add: os_path_basename_def)
  have b2: "os_path_basename ''docs/'' = []"
    by (simp add: os_path_basename_def)
  show ?thesis
    using upload_uses_basename [of "\<lparr>filename = Some ''../../etc/passwd'', file_bytes = ''data''\<rparr>"
        "''../../etc/passwd''" "''passwd''" "''uploaded_files/passwd''" stub_os
        "stub_server (Some stub_ok)" "()" "()" stub_ok "()" "()"]
      upload_uses_basename [of "\<lparr>filename = Some ''docs/'', file_bytes = ''data''\<rparr>"
        "''docs/''" "[]" "''uploaded_files/''" stub_os "stub_server (Some stub_ok)"]
    by (simp add: b1 b2 stub_ready stub_os_sel stub_ok_def)
qed

section \<open>The search endpoint degrades to the empty list\<close>

lemma trace_document_search_try:
  assumes "app_example s = Some c" and "cls_init c (world s) = (None, w1)"
  shows "document_search_try d s =
           (case document_search_method c of
              None \<Rightarrow>
                (Inl (NotImplementedError search_missing),
                 s\<lparr>world := w1, next_obj := Suc (next_obj s),
                   trace := trace s @ [Instantiate (cls_name c) (next_obj s)]\<rparr>)
            | Some search \<Rightarrow>
                (fst (search (search_content d) (num_docs d) w1),
                 s\<lparr>world := snd (search (search_content d) (num_docs d) w1),
                   next_obj := Suc (next_obj s),
                   trace := trace s @ [Instantiate (cls_name c) (next_obj s),
                     CallDocumentSearch (next_obj s) (search_content d) (num_docs d)]\<rparr>))"
  by (simp add: document_search_try_def app_example_call_ok [OF assms] run_def emit_def
      split: option.split prod.split)

text \<open>
  C8. The search endpoint always returns a list. When instantiating the example class
  raises, when the instance has no callable \<^verbatim>\<open>document_search\<close>, or when the call raises, the
  list is empty and the last event is the error in the log. When the call returns, its
  result is returned as it is, and nothing is logged.
\<close>

theorem document_search_degrades:
  assumes "app_example s = Some c" and "cls_init c (world s) = (r, w1)"
  shows "(r = Some e \<longrightarrow>
            fst (document_search d s) = [] \<and>
            new_events s (snd (document_search d s)) = [LogError (search_error @ exn_msg e)]) \<and>
         (r = None \<and> document_search_method c = None \<longrightarrow>
            fst (document_search d s) = [] \<and>
            new_events s (snd (document_search d s)) =
              [Instantiate (cls_name c) (next_obj s),
               LogError (search_error @
                 ''Example class has not implemented the document_search method.'')]) \<and>
         (r = None \<and> document_search_method c = Some search \<and>
          search (search_content d) (num_docs d) w1 = (Inl e, w2) \<longrightarrow>
            fst (document_search d s) = [] \<and>
            new_events s (snd (document_search d s)) =
              [Instantiate (cls_name c) (next_obj s),
               CallDocumentSearch (next_obj s) (search_content d) (num_docs d),
               LogError (search_error @ exn_msg e)]) \<and>
         (r = None \<and> document_search_method c = Some search \<and>
          search (search_content d) (num_docs d) w1 = (Inr docs, w2) \<longrightarrow>
            fst (document_search d s) = docs \<and>
            new_events s (snd (document_search d s)) =
              [Instantiate (cls_name c) (next_obj s),
               CallDocumentSearch (next_obj s) (search_content d) (num_docs d)])"
proof -
  have a: "fst (document_search d s) = [] \<and>
            new_events s (snd (document_search d s)) = [LogError (search_error @ exn_msg e)]"
    if "r = Some e"
    using assms that
    by (simp add: document_search_def document_search_try_def app_example_call_raises
        emit_def new_events_def)
  have b: "fst (document_search d s) = [] \<and>
            new_events s (snd (document_search d s)) =
              [Instantiate (cls_name c) (next_obj s),
               LogError (search_error @
                 ''Example class has not implemented the document_search method.'')]"
    if "r = None" "document_search_method c = None"
    using assms that
    by (simp add: document_search_def trace_document_search_try emit_def new_events_def
        NotImplementedError_def search_missing_def)
  have c: "fst (document_search d s) = [] \<and>
            new_events s (snd (document_search d s)) =
              [Instantiate (cls_name c) (next_obj s),
               CallDocumentSearch (next_obj s) (search_content d) (num_docs d),
               LogError (search_error @ exn_msg e)]"
    if "r = None" "document_search_method c = Some search"
      "search (search_content d) (num_docs d) w1 = (Inl e, w2)"
    using assms that
    by (simp add: document_search_def trace_document_search_try emit_def new_events_def)
  have d: "fst (document_search d s) = docs \<and>
            new_events s (snd (document_search d s)) =
              [Instantiate (cls_name c) (next_obj s),
               CallDocumentSearch (next_obj s) (search_content d) (num_docs d)]"
    if "r = None" "document_search_method c = Some search"
      "search (search_content d) (num_docs d) w1 = (Inr docs, w2)"
    using assms that
    by (simp add: document_search_def trace_document_search_try emit_def new_events_def)
  show ?thesis using a b c d by blast
qed

lemma stub_search_sel:
  "document_search_method (stub_example i g r d) = Some (\<lambda>c n w. (d, w))"
  "document_search_method (stub_example i g r d\<lparr>document_search_method := None\<rparr>) = None"
  "cls_init (stub_example i g r d\<lparr>document_search_method := None\<rparr>) w = (i, w)"
  "cls_name (stub_example i g r d\<lparr>document_search_method := None\<rparr>) = ''StubExample''"
  by (simp_all add: stub_example_def)

theorem document_search_degrades_witness:
  "document_search \<lparr>search_content = ''rag'', num_docs = 4\<rparr> (stub_server (Some stub_ok)) =
     ([''doc''],
      (stub_server (Some stub_ok))\<lparr>next_obj := 1,
         trace := [Instantiate ''StubExample'' 0, CallDocumentSearch 0 ''rag'' 4]\<rparr>) \<and>
   fst (document_search \<lparr>search_content = ''rag'', num_docs = 4\<rparr>
          (stub_server (Some (stub_example None None (Inr [])
             (Inl (RuntimeError ''store is down'')))))) = [] \<and>
   new_events (stub_server (Some (stub_example None None (Inr [])
             (Inl (RuntimeError ''store is down'')))))
     (snd (document_search \<lparr>search_content = ''rag'', num_docs = 4\<rparr>
          (stub_server (Some (stub_example None None (Inr [])
             (Inl (RuntimeError ''store is down''))))))) =
     [Instantiate ''StubExample'' 0, CallDocumentSearch 0 ''rag'' 4,
      LogError (search_error @ ''store is down'')] \<and>
   fst (document_search \<lparr>search_content = ''rag'', num_docs = 4\<rparr>
          (stub_server (Some (stub_ok\<lparr>document_search_method := None\<rparr>)))) = [] \<and>
   fst (document_search \<lparr>search_content = ''rag'', num_docs = 4\<rparr>
          (stub_server (Some (stub_example (Some (RuntimeError ''no model'')) None (Inr [])
             (Inr [''doc'']))))) = []"
proof -
  let ?d = "\<lparr>search_content = ''rag'', num_docs = 4\<rparr>"
  let ?e = "RuntimeError ''store is down''"
  let ?c1 = "stub_example None None (Inr []) (Inl ?e)"
  let ?c2 = "stub_ok\<lparr>document_search_method := None\<rparr>"
  let ?c3 = "stub_example (Some (RuntimeError ''no model'')) None (Inr []) (Inr [''doc''])"
  have ok: "fst (document_search ?d (stub_server (Some stub_ok))) = [''doc''] \<and>
      new_events (stub_server (Some stub_ok))
        (snd (document_search ?d (stub_server (Some stub_ok)))) =
        [Instantiate ''StubExample'' 0, CallDocumentSearch 0 ''rag'' 4]"
    using document_search_degrades [of "stub_server (Some stub_ok)" stub_ok None "()" ?e ?d
        "\<lambda>c n w. (Inr [''doc''], w)" "()" "[''doc'']"]
    by (simp add: stub_ready stub_os_sel stub_search_sel stub_ok_def)
  have raised: "fst (document_search ?d (stub_server (Some ?c1))) = [] \<and>
      new_events (stub_server (Some ?c1)) (snd (document_search ?d (stub_server (Some ?c1)))) =
        [Instantiate ''StubExample'' 0, CallDocumentSearch 0 ''rag'' 4,
         LogError (search_error @ ''store is down'')]"
    using document_search_degrades [of "stub_server (Some ?c1)" ?c1 None "()" ?e ?d
        "\<lambda>c n w. (Inl ?e, w)" "()" "[]"]
    by (simp add: stub_ready stub_os_sel stub_search_sel RuntimeError_def)
  have missing: "fst (document_search ?d (stub_server (Some ?c2))) = []"
    using document_search_degrades [of "stub_server (Some ?c2)" ?c2 None "()" ?e ?d
        "\<lambda>c n w. (Inl ?e, w)" "()" "[]"]
    by (simp add: stub_ready stub_os_sel stub_search_sel stub_ok_def)
  have init: "fst (document_search ?d (stub_server (Some ?c3))) = []"
    using document_search_degrades [of "stub_server (Some ?c3)" ?c3
        "Some (RuntimeError ''no model'')" "()" "RuntimeError ''no model''" ?d
        "\<lambda>c n w. (Inl ?e, w)" "()" "[]"]
    by (simp add: stub_ready stub_os_sel stub_search_sel)
  have whole: "document_search ?d (stub_server (Some stub_ok)) =
     ([''doc''],
      (stub_server (Some stub_ok))\<lparr>next_obj := 1,
         trace := [Instantiate ''StubExample'' 0, CallDocumentSearch 0 ''rag'' 4]\<rparr>)"
    by (simp add: document_search_def document_search_try_def app_example_call_def
        instantiate_def run_def emit_def stub_server_def stub_ok_def stub_example_def)
  show ?thesis using ok raised missing init whole by simp
qed

section \<open>The example class and its instances\<close>

lemma instances_simps:
  "instances [] = []"
  "instances (Instantiate n i # evs) = i # instances evs"
  "instances (CallIngestDocs obj p b # evs) = instances evs"
  "instances (CallRagChain obj q h kw # evs) = instances evs"
  "instances (CallLlmChain obj q h kw # evs) = instances evs"
  "instances (CallDocumentSearch obj c k # evs) = instances evs"
  "instances (Mkdir d # evs) = instances evs"
  "instances (WriteFile p bs # evs) = instances evs"
  "instances (LogError m # evs) = instances evs"
  "instances (LogInfo m # evs) = instances evs"
  "instances (xs @ ys) = instances xs @ instances ys"
  by (simp_all add: instances_def List.map_filter_def)

lemma receivers_simps:
  "receivers [] = []"
  "receivers (Instantiate n i # evs) = receivers evs"
  "receivers (CallIngestDocs obj p b # evs) = obj # receivers evs"
  "receivers (CallRagChain obj q h kw # evs) = obj # receivers evs"
  "receivers (CallLlmChain obj q h kw # evs) = obj # receivers evs"
  "receivers (CallDocumentSearch obj c k # evs) = obj # receivers evs"
  "receivers (Mkdir d # evs) = receivers evs"
  "receivers (WriteFile p bs # evs) = receivers evs"
  "receivers (LogError m # evs) = receivers evs"
  "receivers (LogInfo m # evs) = receivers evs"
  "receivers (xs @ ys) = receivers xs @ receivers ys"
  by (simp_all add: receivers_def List.map_filter_def)

lemma app_example_call_cases:
  obtains (raised) e s1 where "app_example_call s = (Inl e, s1)" "app_example s1 = app_example s"
      "trace s1 = trace s" "next_obj s1 = next_obj s"
  | (created) c s1 where "app_example_call s = (Inr (c, next_obj s), s1)"
      "app_example s = Some c" "app_example s1 = app_example s"
      "trace s1 = trace s @ [Instantiate (cls_name c) (next_obj s)]"
      "next_obj s1 = Suc (next_obj s)"
proof (cases "app_example s")
  case None
  then show ?thesis
    by (intro raised [of _ "snd (app_example_call s)"]) (simp_all add: app_example_call_def)
next
  case (Some c)
  obtain r w1 where i: "cls_init c (world s) = (r, w1)" by (cases "cls_init c (world s)")
  show ?thesis
  proof (cases r)
    case None
    with i show ?thesis
      by (intro created [of c "snd (app_example_call s)"])
        (simp_all add: app_example_call_ok [OF Some] Some)
  next
    case (Some e)
    with i show ?thesis
      by (intro raised [of e "snd (app_example_call s)"])
        (simp_all add: app_example_call_raises [OF \<open>app_example s = Some c\<close>])
  qed
qed

lemma run_fields:
  "app_example (snd (run f s)) = app_example s"
  "next_obj (snd (run f s)) = next_obj s"
  "trace (snd (run f s)) = trace s"
  by (simp_all add: run_def split: prod.split)

lemma emit_fields:
  "app_example (emit ev s) = app_example s"
  "next_obj (emit ev s) = next_obj s"
  "trace (emit ev s) = trace s @ [ev]"
  by (simp_all add: emit_def)

lemma request_step_generate: "request_step s (snd (generate_answer p s))"
proof -
  let ?h = "remove_last_user (messages p)"
  let ?q = "last_user_message (messages p)"
  let ?kw = "llm_settings (p\<lparr>messages := ?h\<rparr>)"
  let ?t = "generate_try (p\<lparr>messages := ?h\<rparr>) ?q ?h ?kw s"
  have ans: "app_example (snd (generate_answer p s)) = app_example (snd ?t) \<and>
      next_obj (snd (generate_answer p s)) = next_obj (snd ?t) \<and>
      (\<exists>log. trace (snd (generate_answer p s)) = trace (snd ?t) @ log \<and>
         instances log = [] \<and> receivers log = [])"
    by (cases ?t rule: prod.exhaust; cases "fst ?t")
      (auto simp: generate_answer_def Let_def generate_except_def emit_fields
        instances_simps receivers_simps)
  have tried: "app_example (snd ?t) = app_example s \<and>
      (\<exists>evs. trace (snd ?t) = trace s @ evs \<and>
        (instances evs = [] \<and> receivers evs = [] \<and> next_obj (snd ?t) = next_obj s \<or>
         instances evs = [next_obj s] \<and> set (receivers evs) \<subseteq> {next_obj s} \<and>
         length (receivers evs) \<le> 1 \<and> next_obj (snd ?t) = Suc (next_obj s)))"
  proof (cases s rule: app_example_call_cases)
    case (raised e s1)
    then show ?thesis
      by (simp add: generate_try_def instances_simps receivers_simps)
  next
    case (created c s1)
    then show ?thesis
      by (cases "use_knowledge_base p")
        (auto simp: generate_try_def run_fields emit_fields instances_simps receivers_simps
          split: prod.split sum.split
          dest!: arg_cong [where f = snd and y = "(_, _)"])
  qed
  show ?thesis unfolding request_step_def using ans tried
    by (auto simp: instances_simps receivers_simps) 
qed

lemma request_step_search: "request_step s (snd (document_search d s))"
proof -
  let ?t = "document_search_try d s"
  have ans: "app_example (snd (document_search d s)) = app_example (snd ?t) \<and>
      next_obj (snd (document_search d s)) = next_obj (snd ?t) \<and>
      (\<exists>log. trace (snd (document_search d s)) = trace (snd ?t) @ log \<and>
         instances log = [] \<and> receivers log = [])"
    by (cases ?t rule: prod.exhaust; cases "fst ?t")
      (auto simp: document_search_def emit_fields instances_simps receivers_simps)
  have tried: "app_example (snd ?t) = app_example s \<and>
      (\<exists>evs. trace (snd ?t) = trace s @ evs \<and>
        (instances evs = [] \<and> receivers evs = [] \<and> next_obj (snd ?t) = next_obj s \<or>
         instances evs = [next_obj s] \<and> set (receivers evs) \<subseteq> {next_obj s} \<and>
         length (receivers evs) \<le> 1 \<and> next_obj (snd ?t) = Suc (next_obj s)))"
  proof (cases s rule: app_example_call_cases)
    case (raised e s1)
    then show ?thesis
      by (simp add: document_search_try_def instances_simps receivers_simps)
  next
    case (created c s1)
    then show ?thesis
      by (cases "document_search_method c")
        (auto simp: document_search_try_def run_fields emit_fields instances_simps
          receivers_simps)
  qed
  show ?thesis unfolding request_step_def using ans tried
    by (auto simp: instances_simps receivers_simps)
qed

lemma request_step_upload: "request_step s (snd (upload_document os f s))"
proof (cases "filename f = None \<or> filename f = Some []")
  case True
  then have "snd (upload_document os f s) = s"
    by (auto simp: upload_document_def)
  then show ?thesis by (simp add: request_step_def instances_simps receivers_simps)
next
  case False
  then obtain fname where fname: "filename f = Some fname" "fname \<noteq> []" by auto
  let ?t = "upload_try os fname (file_bytes f) s"
  have ans: "app_example (snd (upload_document os f s)) = app_example (snd ?t) \<and>
      next_obj (snd (upload_document os f s)) = next_obj (snd ?t) \<and>
      (\<exists>log. trace (snd (upload_document os f s)) = trace (snd ?t) @ log \<and>
         instances log = [] \<and> receivers log = [])"
    using fname
    by (cases ?t rule: prod.exhaust; cases "fst ?t")
      (auto simp: upload_document_def emit_fields instances_simps receivers_simps)
  have tried: "app_example (snd ?t) = app_example s \<and>
      (\<exists>evs. trace (snd ?t) = trace s @ evs \<and>
        (instances evs = [] \<and> receivers evs = [] \<and> next_obj (snd ?t) = next_obj s \<or>
         instances evs = [next_obj s] \<and> set (receivers evs) \<subseteq> {next_obj s} \<and>
         length (receivers evs) \<le> 1 \<and> next_obj (snd ?t) = Suc (next_obj s)))"
  proof (cases "os_path_basename fname = []")
    case True
    then show ?thesis
      by (simp add: upload_try_empty instances_simps receivers_simps)
  next
    case b: False
    let ?path = "os_path_join ''uploaded_files'' (os_path_basename fname)"
    let ?s0 = "emit (Mkdir ''uploaded_files'') s"
    obtain r1 s1 where m: "run (mkdir os ''uploaded_files'') ?s0 = (r1, s1)"
      by (cases "run (mkdir os ''uploaded_files'') ?s0")
    have s1: "app_example s1 = app_example s" "next_obj s1 = next_obj s"
      "trace s1 = trace s @ [Mkdir ''uploaded_files'']"
      using run_fields [of "mkdir os ''uploaded_files''" ?s0] by (simp_all add: m emit_fields)
    let ?s1 = "emit (WriteFile ?path (file_bytes f)) s1"
    obtain r2 s2 where w: "run (write_file os ?path (file_bytes f)) ?s1 = (r2, s2)"
      by (cases "run (write_file os ?path (file_bytes f)) ?s1")
    have s2: "app_example s2 = app_example s" "next_obj s2 = next_obj s"
      "trace s2 = trace s @ [Mkdir ''uploaded_files'', WriteFile ?path (file_bytes f)]"
      using run_fields [of "write_file os ?path (file_bytes f)" ?s1]
      by (simp_all add: w emit_fields s1)
    show ?thesis
    proof (cases r1)
      case (Some e)
      then show ?thesis
        using b by (simp add: upload_try_def Let_def m s1 instances_simps receivers_simps)
    next
      case r1: None
      show ?thesis
      proof (cases r2)
        case (Some e)
        then show ?thesis
          using b
          by (simp add: upload_try_def Let_def m r1 w s2 instances_simps receivers_simps)
      next
        case r2: None
        show ?thesis
        proof (cases s2 rule: app_example_call_cases)
          case (raised e s3)
          then show ?thesis
            using b
            by (simp add: upload_try_def Let_def m r1 w r2 s2 instances_simps receivers_simps)
        next
          case (created c s3)
          then show ?thesis
            using b
            by (simp add: upload_try_def Let_def m r1 w r2 s2 run_fields emit_fields
                instances_simps receivers_simps)
        qed
      qed
    qed
  qed
  show ?thesis unfolding request_step_def using ans tried
    by (auto simp: instances_simps receivers_simps)
qed

lemma request_step_serve: "request_step s (serve os r s)"
  by (cases r) (simp_all add: request_step_generate request_step_search request_step_upload)

lemma request_step_events:
  "instances (new_events s (serve os r s)) = [] \<and>
   receivers (new_events s (serve os r s)) = [] \<or>
   instances (new_events s (serve os r s)) = [next_obj s] \<and>
   set (receivers (new_events s (serve os r s))) \<subseteq> {next_obj s}"
  using request_step_serve [of s os r]
  by (auto simp: request_step_def new_events_def)

lemma served_refl: "served s s"
  by (simp add: served_def instances_simps receivers_simps)

lemma served_step:
  assumes "served s s1" and "request_step s1 s2"
  shows "served s s2"
proof -
  from assms(1) obtain evs1 where 1: "app_example s1 = app_example s" "next_obj s \<le> next_obj s1"
    "trace s1 = trace s @ evs1" "instances evs1 = [next_obj s ..< next_obj s1]"
    "distinct (receivers evs1)" "set (receivers evs1) \<subseteq> {next_obj s ..< next_obj s1}"
    unfolding served_def by blast
  from assms(2) obtain evs2 where 2: "app_example s2 = app_example s1"
    "trace s2 = trace s1 @ evs2"
    "instances evs2 = [] \<and> receivers evs2 = [] \<and> next_obj s2 = next_obj s1 \<or>
     instances evs2 = [next_obj s1] \<and> set (receivers evs2) \<subseteq> {next_obj s1} \<and>
     length (receivers evs2) \<le> 1 \<and> next_obj s2 = Suc (next_obj s1)"
    unfolding request_step_def by blast
  have d2: "distinct (receivers evs2)"
    using 2(3) by (cases "receivers evs2") auto
  have disj: "set (receivers evs1) \<inter> set (receivers evs2) = {}"
    using 1(6) 2(3) by auto
  have inst: "instances (evs1 @ evs2) = [next_obj s ..< next_obj s2]"
    using 1(2,4) 2(3) by (auto simp: instances_simps)
  have recv: "set (receivers (evs1 @ evs2)) \<subseteq> {next_obj s ..< next_obj s2}"
    using 1(2,6) 2(3) by (auto simp: receivers_simps)
  have "next_obj s \<le> next_obj s2" using 1(2) 2(3) by auto
  moreover have "trace s2 = trace s @ (evs1 @ evs2)" by (simp add: 1(3) 2(2))
  moreover have "distinct (receivers (evs1 @ evs2))"
    using 1(5) d2 disj by (simp add: receivers_simps)
  ultimately show ?thesis
    unfolding served_def using 1(1) 2(1) inst recv
    by (intro conjI exI [of _ "evs1 @ evs2"]) simp_all
qed

lemma served_all: "served s0 s \<Longrightarrow> served s0 (serve_all os reqs s)"
proof (induction reqs arbitrary: s)
  case Nil
  then show ?case by (simp add: serve_all_def)
next
  case (Cons r reqs)
  have "served s0 (serve os r s)"
    using Cons.prems request_step_serve by (rule served_step)
  then have "served s0 (serve_all os reqs (serve os r s))" by (rule Cons.IH)
  then show ?case by (simp add: serve_all_def)
qed

lemma instantiate_created:
  assumes "instantiate c s = (Inr obj, s1)"
  shows "obj = next_obj s \<and> trace s1 = trace s @ [Instantiate (cls_name c) (next_obj s)] \<and>
         next_obj s1 = Suc (next_obj s)"
  using assms
  by (auto simp: instantiate_def run_def split: prod.splits option.splits)

lemma scan_classes_result:
  "(scan_classes members s = Bound s' \<longrightarrow> probed s s') \<and>
   (scan_classes members s = NotFound s' \<longrightarrow> s' = s)"
proof (induction members)
  case Nil
  then show ?case by simp
next
  case (Cons m members)
  obtain name cls where m: "m = (name, cls)" by (cases m)
  show ?case
  proof (cases "set [''ingest_docs'', ''llm_chain'', ''rag_chain''] \<subseteq> set (cls_dir cls) \<and>
      name \<noteq> ''BaseExample''")
    case False
    then show ?thesis using Cons by (auto simp: m)
  next
    case True
    obtain r s1 where i: "instantiate cls s = (r, s1)" by (cases "instantiate cls s")
    show ?thesis
    proof (cases r)
      case (Inl e)
      then show ?thesis using True by (simp add: m i)
    next
      case (Inr obj)
      then have "trace s1 = trace s @ [Instantiate (cls_name cls) (next_obj s)] \<and>
          next_obj s1 = Suc (next_obj s)"
        using instantiate_created [of cls s obj s1] i by simp
      then have "probed s (s1\<lparr>app_example := Some cls\<rparr>)"
        using True by (simp add: probed_def)
      then show ?thesis using True Inr by (auto simp: m i)
    qed
  qed
qed

lemma scan_files_result:
  "(scan_files os dirpath files s = Bound s' \<longrightarrow> probed s s') \<and>
   (scan_files os dirpath files s = NotFound s' \<longrightarrow>
      trace s' = trace s \<and> next_obj s' = next_obj s)"
proof (induction files arbitrary: s)
  case Nil
  then show ?case by simp
next
  case (Cons f files)
  show ?case
  proof (cases "endswith f ''.py''")
    case False
    then show ?thesis using Cons [of s] by simp
  next
    case True
    obtain r s1 where e: "run (exec_module os (os_path_join dirpath f)) s = (r, s1)"
      by (cases "run (exec_module os (os_path_join dirpath f)) s")
    have s1: "trace s1 = trace s" "next_obj s1 = next_obj s"
      using run_fields [of "exec_module os (os_path_join dirpath f)" s] by (simp_all add: e)
    show ?thesis
    proof (cases r)
      case (Inl x)
      then show ?thesis using True by (simp add: e)
    next
      case (Inr members)
      show ?thesis
      proof (cases "scan_classes members s1")
        case (Bound s2)
        then have "probed s1 s2" using scan_classes_result [of members s1 s2] by simp
        then have "probed s s2" by (simp add: probed_def s1)
        then show ?thesis using True Inr Bound by (auto simp: e)
      next
        case (Raised x)
        then show ?thesis using True Inr by (simp add: e)
      next
        case (NotFound s2)
        then have "s2 = s1" using scan_classes_result [of members s1 s2] by simp
        then show ?thesis
          using True Inr NotFound Cons [of s1] by (simp add: e s1 probed_def)
      qed
    qed
  qed
qed

lemma scan_walk_result:
  "(scan_walk os dirs s = Bound s' \<longrightarrow> probed s s') \<and>
   (scan_walk os dirs s = NotFound s' \<longrightarrow>
      trace s' = trace s \<and> next_obj s' = next_obj s)"
proof (induction dirs arbitrary: s)
  case Nil
  then show ?case by simp
next
  case (Cons d dirs)
  obtain dirpath files where d: "d = (dirpath, files)" by (cases d)
  show ?case
  proof (cases "scan_files os dirpath files s")
    case (Bound s1)
    then show ?thesis using scan_files_result [of os dirpath files s s1] by (auto simp: d)
  next
    case (Raised x)
    then show ?thesis by (simp add: d)
  next
    case (NotFound s1)
    then have "trace s1 = trace s \<and> next_obj s1 = next_obj s"
      using scan_files_result [of os dirpath files s s1] by simp
    then show ?thesis using NotFound Cons [of s1] by (simp add: d probed_def)
  qed
qed

lemma import_example_probed:
  "import_example os s = Inr s' \<Longrightarrow> probed s s'"
  using scan_walk_result [of os "walk os EXAMPLE_DIR" s s']
  by (auto simp: import_example_def split: scan.splits)

text \<open>
  C1, as amended. A successful startup binds one class to \<^verbatim>\<open>app.example\<close> and creates one
  object of it, the probe, which is dropped. Whatever requests follow, the attribute
  holds that class; the objects created after startup are numbered consecutively from
  the one after the probe; every method call is on an object created after startup, and
  no two method calls are on the same object. A single request, in any state, either
  creates no object and calls no method, or creates one object and calls methods on
  that object only.
\<close>

theorem handler_class_fixed_instance_per_request:
  assumes "import_example os s0 = Inr s1"
  shows "\<exists>c. app_example s1 = Some c \<and>
           new_events s0 s1 = [Instantiate (cls_name c) (next_obj s0)] \<and>
           next_obj s1 = Suc (next_obj s0) \<and>
           (\<forall>reqs.
              app_example (serve_all os reqs s1) = Some c \<and>
              instances (new_events s1 (serve_all os reqs s1)) =
                [Suc (next_obj s0) ..< next_obj (serve_all os reqs s1)] \<and>
              distinct (receivers (new_events s1 (serve_all os reqs s1))) \<and>
              set (receivers (new_events s1 (serve_all os reqs s1))) \<subseteq>
                set (instances (new_events s1 (serve_all os reqs s1)))) \<and>
           (\<forall>r s.
              instances (new_events s (serve os r s)) = [] \<and>
              receivers (new_events s (serve os r s)) = [] \<or>
              instances (new_events s (serve os r s)) = [next_obj s] \<and>
              set (receivers (new_events s (serve os r s))) \<subseteq> {next_obj s})"
proof -
  from import_example_probed [OF assms] obtain c where c: "app_example s1 = Some c"
    "trace s1 = trace s0 @ [Instantiate (cls_name c) (next_obj s0)]"
    "next_obj s1 = Suc (next_obj s0)"
    unfolding probed_def by blast
  have requests: "app_example (serve_all os reqs s1) = Some c \<and>
        instances (new_events s1 (serve_all os reqs s1)) =
          [Suc (next_obj s0) ..< next_obj (serve_all os reqs s1)] \<and>
        distinct (receivers (new_events s1 (serve_all os reqs s1))) \<and>
        set (receivers (new_events s1 (serve_all os reqs s1))) \<subseteq>
          set (instances (new_events s1 (serve_all os reqs s1)))" for reqs
  proof -
    have "served s1 (serve_all os reqs s1)" using served_refl by (rule served_all)
    then obtain evs where "app_example (serve_all os reqs s1) = app_example s1"
      "trace (serve_all os reqs s1) = trace s1 @ evs"
      "instances evs = [next_obj s1 ..< next_obj (serve_all os reqs s1)]"
      "distinct (receivers evs)"
      "set (receivers evs) \<subseteq> {next_obj s1 ..< next_obj (serve_all os reqs s1)}"
      unfolding served_def by blast
    then show ?thesis by (simp add: new_events_def c)
  qed
  have probe: "new_events s0 s1 = [Instantiate (cls_name c) (next_obj s0)]"
    by (simp add: new_events_def c)
  show ?thesis using c(1,3) probe requests request_step_events by blast
qed

lemma stub_startup:
  "import_example stub_os (stub_server None) =
     Inr \<lparr>app_example = Some stub_ok, next_obj = 1,
          trace = [Instantiate ''StubExample'' 0], world = ()\<rparr>"
  by (simp add: import_example_def EXAMPLE_DIR_def stub_os_def stub_server_def endswith_def
      os_path_join_def run_def instantiate_def stub_ok_def stub_example_def)

lemma stub_two_requests:
  "trace (serve_all stub_os
     [GenerateAnswer (stub_prompt [(''user'', ''hi'')] False),
      SearchDocuments \<lparr>search_content = ''rag'', num_docs = 4\<rparr>]
     \<lparr>app_example = Some stub_ok, next_obj = 1,
      trace = [Instantiate ''StubExample'' 0], world = ()\<rparr>) =
   [Instantiate ''StubExample'' 0,
    Instantiate ''StubExample'' 1,
    CallLlmChain 1 (Some ''hi'') []
      (llm_settings (stub_prompt [(''user'', ''hi'')] False\<lparr>messages := []\<rparr>)),
    Instantiate ''StubExample'' 2,
    CallDocumentSearch 2 ''rag'' 4]"
  by (simp add: serve_all_def generate_answer_def generate_try_def Let_def
      document_search_def document_search_try_def app_example_call_def instantiate_def
      run_def emit_def stub_ok_def stub_example_def stub_prompt_sel stub_history)

text \<open>
  Startup with the stub, then a generate request and a search request: three objects are
  created, the probe and one for each request, and the two requests call their methods on
  different objects.
\<close>

theorem handler_instance_counterexample:
  "import_example stub_os (stub_server None) =
     Inr \<lparr>app_example = Some stub_ok, next_obj = 1,
          trace = [Instantiate ''StubExample'' 0], world = ()\<rparr> \<and>
   instances (trace (serve_all stub_os
     [GenerateAnswer (stub_prompt [(''user'', ''hi'')] False),
      SearchDocuments \<lparr>search_content = ''rag'', num_docs = 4\<rparr>]
     \<lparr>app_example = Some stub_ok, next_obj = 1,
      trace = [Instantiate ''StubExample'' 0], world = ()\<rparr>)) = [0, 1, 2] \<and>
   receivers (trace (serve_all stub_os
     [GenerateAnswer (stub_prompt [(''user'', ''hi'')] False),
      SearchDocuments \<lparr>search_content = ''rag'', num_docs = 4\<rparr>]
     \<lparr>app_example = Some stub_ok, next_obj = 1,
      trace = [Instantiate ''StubExample'' 0], world = ()\<rparr>)) = [1, 2]"
  by (simp only: stub_startup stub_two_requests) (simp add: instances_simps receivers_simps)

theorem handler_class_fixed_instance_per_request_witness:
  "app_example (serve_all stub_os
     [GenerateAnswer (stub_prompt [(''user'', ''hi'')] False),
      SearchDocuments \<lparr>search_content = ''rag'', num_docs = 4\<rparr>]
     \<lparr>app_example = Some stub_ok, next_obj = 1,
      trace = [Instantiate ''StubExample'' 0], world = ()\<rparr>) = Some stub_ok \<and>
   distinct (receivers (new_events
     \<lparr>app_example = Some stub_ok, next_obj = 1,
      trace = [Instantiate ''StubExample'' 0], world = ()\<rparr>
     (serve_all stub_os
       [GenerateAnswer (stub_prompt [(''user'', ''hi'')] False),
        SearchDocuments \<lparr>search_content = ''rag'', num_docs = 4\<rparr>]
       \<lparr>app_example = Some stub_ok, next_obj = 1,
        trace = [Instantiate ''StubExample'' 0], world = ()\<rparr>)))"
  using handler_class_fixed_instance_per_request [OF stub_startup]
  by auto

end
